theory Spec2Isabelle
  imports Complex_Main "HOL-Library.List_Lexorder" "HOL-Library.Sublist"
begin

section \<open>Python values, exceptions and builtins\<close>

text \<open>
  The modules modelled here are
  \<^verbatim>\<open>src/ridgeplot/_utils.py\<close> and \<^verbatim>\<open>src/ridgeplot/_color/interpolation.py\<close>.

  Numbers (Python's \<^verbatim>\<open>int\<close> and \<^verbatim>\<open>float\<close>, the alias \<^verbatim>\<open>Numeric\<close>) are
  rationals: arithmetic is exact, floating-point rounding is not modelled. Counts
  (\<^verbatim>\<open>n_rows\<close>, \<^verbatim>\<open>n_traces\<close>, indices) are integers. Python lists and tuples are both
  HOL lists. A raised exception is the \<open>Inl\<close> branch of a sum; the message keeps the
  fixed part of the source's text (interpolated numbers are left out).
\<close>

datatype error =
    ValueError string
  | TypeError string
  | ZeroDivisionError string

text \<open>\<^verbatim>\<open>min(xs)\<close> and \<^verbatim>\<open>max(xs)\<close> raise ValueError on an empty sequence.\<close>

fun min_py :: "'a::linorder list \<Rightarrow> error + 'a" where
  "min_py [] = Inl (ValueError ''min() arg is an empty sequence'')"
| "min_py (x # xs) = Inr (fold min xs x)"

fun max_py :: "'a::linorder list \<Rightarrow> error + 'a" where
  "max_py [] = Inl (ValueError ''max() arg is an empty sequence'')"
| "max_py (x # xs) = Inr (fold max xs x)"

text \<open>\<^verbatim>\<open>xs.index(v)\<close>: the first position holding \<open>v\<close>, ValueError when there is none.\<close>

fun index_py :: "'a list \<Rightarrow> 'a \<Rightarrow> error + nat" where
  "index_py [] v = Inl (ValueError ''is not in list'')"
| "index_py (x # xs) v =
     (if x = v then Inr 0
      else (case index_py xs v of Inl e \<Rightarrow> Inl e | Inr i \<Rightarrow> Inr (Suc i)))"

text \<open>True division \<^verbatim>\<open>a / b\<close> raises ZeroDivisionError when \<open>b\<close> is zero.\<close>

definition div_py :: "rat \<Rightarrow> rat \<Rightarrow> error + rat" where
  "div_py a b = (if b = 0 then Inl (ZeroDivisionError ''division by zero'') else Inr (a / b))"

text \<open>
  \<^verbatim>\<open>zip(*xss)\<close>: the i-th result collects the i-th element of every argument; it stops
  with the shortest argument, and \<^verbatim>\<open>zip()\<close> of no argument yields nothing.
\<close>

definition zip_star :: "'a list list \<Rightarrow> 'a list list" where
  "zip_star xss =
     (case xss of
        [] \<Rightarrow> []
      | xs # rest \<Rightarrow>
          map (\<lambda>i. map (\<lambda>s. s ! i) xss) [0 ..< fold min (map length rest) (length xs)])"

text \<open>
  The tuple assignment \<^verbatim>\<open>x, y = it\<close> raises ValueError unless \<open>it\<close> yields exactly two
  values.
\<close>

fun unpack2 :: "'a list \<Rightarrow> error + ('a \<times> 'a)" where
  "unpack2 [a, b] = Inr (a, b)"
| "unpack2 [] = Inl (ValueError ''not enough values to unpack (expected 2)'')"
| "unpack2 [a] = Inl (ValueError ''not enough values to unpack (expected 2)'')"
| "unpack2 (a # b # c # rest) = Inl (ValueError ''too many values to unpack (expected 2)'')"

text \<open>Running a fallible function over a list, stopping at the first exception.\<close>

fun map_err :: "('a \<Rightarrow> error + 'b) \<Rightarrow> 'a list \<Rightarrow> error + 'b list" where
  "map_err f [] = Inr []"
| "map_err f (x # xs) =
     (case f x of
        Inl e \<Rightarrow> Inl e
      | Inr y \<Rightarrow> (case map_err f xs of Inl e \<Rightarrow> Inl e | Inr ys \<Rightarrow> Inr (y # ys)))"

section \<open>\<^verbatim>\<open>_utils.py\<close>\<close>

subsection \<open>\<^verbatim>\<open>get_xy_extrema\<close>\<close>

text \<open>
  \<^verbatim>\<open>arrays\<close> is an iterable of arrays; an array is a sequence of member sequences, and
  the members' elements are any comparable type. The \<^verbatim>\<open>for\<close> loop over the arrays
  carries the two accumulators \<open>x\<close> and \<open>y\<close>.
\<close>

fun get_xy_extrema_loop ::
  "'a list list list \<Rightarrow> 'a list \<Rightarrow> 'a list \<Rightarrow> error + ('a list \<times> 'a list)" where
  "get_xy_extrema_loop [] x y = Inr (x, y)"
| "get_xy_extrema_loop (array # arrays) x y =
     (if length array \<noteq> 2 then Inl (ValueError ''Expected 2D array'')
      else if 0 \<in> set [length (array ! 0), length (array ! 1)]
        then Inl (ValueError ''Cannot get extrema of an empty array.'')
      else get_xy_extrema_loop arrays (x @ array ! 0) (y @ array ! 1))"

definition get_xy_extrema ::
  "'a::linorder list list list \<Rightarrow> error + ('a \<times> 'a \<times> 'a \<times> 'a)" where
  "get_xy_extrema arrays =
     (case get_xy_extrema_loop arrays [] [] of
        Inl e \<Rightarrow> Inl e
      | Inr (x, y) \<Rightarrow>
          if 0 \<in> set [length x, length y]
          then Inl (ValueError ''Cannot get extrema of empty array sequence.'')
          else (case min_py x of Inl e \<Rightarrow> Inl e | Inr x_lo \<Rightarrow>
               (case max_py x of Inl e \<Rightarrow> Inl e | Inr x_hi \<Rightarrow>
               (case min_py y of Inl e \<Rightarrow> Inl e | Inr y_lo \<Rightarrow>
               (case max_py y of Inl e \<Rightarrow> Inl e | Inr y_hi \<Rightarrow>
                  Inr (x_lo, x_hi, y_lo, y_hi))))))"

subsection \<open>\<^verbatim>\<open>normalise_min_max\<close>\<close>

definition normalise_min_max :: "rat \<Rightarrow> rat \<Rightarrow> rat \<Rightarrow> error + rat" where
  "normalise_min_max val min' max' =
     (if max' \<le> min' then Inl (ValueError ''max_ should be greater than min_.'')
      else if \<not> (min' \<le> val \<and> val \<le> max') then Inl (ValueError ''val is out of bounds.'')
      else Inr ((val - min') / (max' - min')))"

section \<open>\<^verbatim>\<open>_color/interpolation.py\<close>\<close>

subsection \<open>The data\<close>

text \<open>
  The module \<^verbatim>\<open>ridgeplot._types\<close> that declares \<^verbatim>\<open>Densities\<close> is not among the
  sources. The dataset is a sequence of rows, a row a sequence of traces, and a trace a
  sequence of numeric sequences. That covers both shapes a trace is given in: the sequence
  of \<open>(x, y)\<close> points that the strategies below unpack with \<^verbatim>\<open>x, y = zip(*trace)\<close>,
  as in \<open>[[0, 1], [1, 1], [2, 1]]\<close>, and the pair of an x-sequence and a y-sequence,
  as in \<open>[[0, 1, 2], [1, 1, 1]]\<close>.
\<close>

type_synonym trace = "rat list list"
type_synonym densities_row = "trace list"
type_synonym densities_t = "densities_row list"

record InterpolationContext =
  densities :: densities_t
  n_rows :: int
  n_traces :: int
  x_min :: rat
  x_max :: rat

type_synonym ColorscaleInterpolants = "rat list list"

subsection \<open>\<^verbatim>\<open>InterpolationContext.from_densities\<close>\<close>

text \<open>
  \<^verbatim>\<open>from_densities\<close> calls \<^verbatim>\<open>get_xy_extrema(densities=densities)\<close>. Python binds a
  keyword argument to the parameter of that name and raises TypeError when the function
  has none; \<^verbatim>\<open>get_xy_extrema\<close> declares the single parameter \<^verbatim>\<open>arrays\<close>.
\<close>

definition get_xy_extrema_params :: "string list" where
  "get_xy_extrema_params = [''arrays'']"

definition get_xy_extrema_kw ::
  "string \<Rightarrow> 'a::linorder list list list \<Rightarrow> error + ('a \<times> 'a \<times> 'a \<times> 'a)" where
  "get_xy_extrema_kw keyword arg =
     (if keyword \<in> set get_xy_extrema_params then get_xy_extrema arg
      else Inl (TypeError ''get_xy_extrema() got an unexpected keyword argument''))"

text \<open>
  Given the dataset, the members that \<^verbatim>\<open>get_xy_extrema\<close> would collect are whole traces,
  so the extrema it would return are sequences (compared lexicographically, as Python
  compares lists and tuples), and \<^verbatim>\<open>float\<close> of a sequence raises TypeError.
\<close>

definition float_of_seq :: "'a list \<Rightarrow> error + rat" where
  "float_of_seq v = Inl (TypeError ''float() argument must be a string or a real number'')"

definition from_densities :: "densities_t \<Rightarrow> error + InterpolationContext" where
  "from_densities dens =
     (case get_xy_extrema_kw ''densities'' dens of
        Inl e \<Rightarrow> Inl e
      | Inr (e1, e2, e3, e4) \<Rightarrow>
          (case map_err float_of_seq [e1, e2, e3, e4] of
             Inl e \<Rightarrow> Inl e
           | Inr fs \<Rightarrow>
               Inr \<lparr> densities = dens,
                     n_rows = int (length dens),
                     n_traces = sum_list (map (\<lambda>row. int (length row)) dens),
                     x_min = fs ! 0,
                     x_max = fs ! 1 \<rparr>))"

subsection \<open>The colormode strategies\<close>

definition mul :: "rat list \<Rightarrow> rat list \<Rightarrow> rat list" where
  "mul a b = map (\<lambda>(a_i, b_i). a_i * b_i) (zip a b)"

definition interpolate_row_index :: "InterpolationContext \<Rightarrow> error + ColorscaleInterpolants" where
  "interpolate_row_index ctx =
     map_err
       (\<lambda>(ith_row, row).
          case div_py (of_int ((n_rows ctx - 1) - int ith_row)) (of_int (n_rows ctx - 1)) of
            Inl e \<Rightarrow> Inl e
          | Inr p \<Rightarrow> Inr (replicate (length row) p))
       (enumerate 0 (densities ctx))"

text \<open>
  \<^verbatim>\<open>_interpolate_trace_index\<close>: the inner loop over a row's traces and the outer loop
  over the rows, both carrying the counter \<^verbatim>\<open>ith_trace\<close>.
\<close>

fun trace_index_row ::
  "int \<Rightarrow> trace list \<Rightarrow> rat list \<Rightarrow> int \<Rightarrow> error + (rat list \<times> int)" where
  "trace_index_row n [] ps_row ith_trace = Inr (ps_row, ith_trace)"
| "trace_index_row n (t # row) ps_row ith_trace =
     (case div_py (of_int ((n - 1) - ith_trace)) (of_int (n - 1)) of
        Inl e \<Rightarrow> Inl e
      | Inr p \<Rightarrow> trace_index_row n row (ps_row @ [p]) (ith_trace + 1))"

fun trace_index_rows ::
  "int \<Rightarrow> densities_t \<Rightarrow> rat list list \<Rightarrow> int \<Rightarrow> error + rat list list" where
  "trace_index_rows n [] ps ith_trace = Inr ps"
| "trace_index_rows n (row # rows) ps ith_trace =
     (case trace_index_row n row [] ith_trace of
        Inl e \<Rightarrow> Inl e
      | Inr (ps_row, ith_trace') \<Rightarrow> trace_index_rows n rows (ps @ [ps_row]) ith_trace')"

definition interpolate_trace_index :: "InterpolationContext \<Rightarrow> error + ColorscaleInterpolants" where
  "interpolate_trace_index ctx = trace_index_rows (n_traces ctx) (densities ctx) [] 0"

definition interpolate_trace_index_row_wise ::
  "InterpolationContext \<Rightarrow> error + ColorscaleInterpolants" where
  "interpolate_trace_index_row_wise ctx =
     map_err
       (\<lambda>row. map_err
          (\<lambda>ith_row_trace.
             div_py (of_int ((int (length row) - 1) - int ith_row_trace))
                    (of_int (int (length row) - 1)))
          [0 ..< length row])
       (densities ctx)"

text \<open>
  Both mean strategies compute, per trace,
  \<^verbatim>\<open>x, y = zip(*trace)\<close> and then \<^verbatim>\<open>sum(_mul(x, y)) / sum(y)\<close>.
\<close>

definition weighted_mean :: "trace \<Rightarrow> error + rat" where
  "weighted_mean trace =
     (case unpack2 (zip_star trace) of
        Inl e \<Rightarrow> Inl e
      | Inr (x, y) \<Rightarrow> div_py (sum_list (mul x y)) (sum_list y))"

definition interpolate_mean_minmax :: "InterpolationContext \<Rightarrow> error + ColorscaleInterpolants" where
  "interpolate_mean_minmax ctx =
     map_err
       (\<lambda>row. map_err
          (\<lambda>trace. case weighted_mean trace of
                      Inl e \<Rightarrow> Inl e
                    | Inr m \<Rightarrow> normalise_min_max m (x_min ctx) (x_max ctx))
          row)
       (densities ctx)"

definition interpolate_mean_means :: "InterpolationContext \<Rightarrow> error + ColorscaleInterpolants" where
  "interpolate_mean_means ctx =
     (case map_err (\<lambda>row. map_err weighted_mean row) (densities ctx) of
        Inl e \<Rightarrow> Inl e
      | Inr means \<Rightarrow>
     (case map_err min_py means of Inl e \<Rightarrow> Inl e | Inr row_mins \<Rightarrow>
     (case min_py row_mins of Inl e \<Rightarrow> Inl e | Inr min_mean \<Rightarrow>
     (case map_err max_py means of Inl e \<Rightarrow> Inl e | Inr row_maxs \<Rightarrow>
     (case max_py row_maxs of Inl e \<Rightarrow> Inl e | Inr max_mean \<Rightarrow>
        map_err (\<lambda>row. map_err (\<lambda>mean. normalise_min_max mean min_mean max_mean) row) means)))))"

definition SOLID_COLORMODE_MAPS ::
  "(string \<times> (InterpolationContext \<Rightarrow> error + ColorscaleInterpolants)) list" where
  "SOLID_COLORMODE_MAPS =
     [(''row-index'', interpolate_row_index),
      (''trace-index'', interpolate_trace_index),
      (''trace-index-row-wise'', interpolate_trace_index_row_wise),
      (''mean-minmax'', interpolate_mean_minmax),
      (''mean-means'', interpolate_mean_means)]"

subsection \<open>Colours\<close>

text \<open>
  Modelled from the spec: the colour helpers \<^verbatim>\<open>to_rgb\<close>, \<^verbatim>\<open>apply_alpha\<close> and
  \<^verbatim>\<open>round_color\<close> of \<^verbatim>\<open>ridgeplot._color.utils\<close> and the blend
  \<^verbatim>\<open>find_intermediate_color\<close> of the charting library are not among the sources. The spec:
  a Color is "an RGB(A) value expressible as a string or tuple; may carry an alpha
  channel"; \<^verbatim>\<open>to_rgb\<close> converts "to a canonical RGB representation"; the blend is to
  "linearly blend floor-color and ceil-color in RGB space at that fraction", and "blending
  can drop the alpha channel"; \<^verbatim>\<open>apply_alpha\<close> rewrites a colour "to carry that alpha";
  \<^verbatim>\<open>round_color\<close> is to "round the color's numeric channels to a fixed precision (12
  decimal digits)". A colour is modelled as its RGB(A) value, which is its own canonical
  representation; the textual forms are not modelled.
\<close>

datatype color = RGB rat rat rat | RGBA rat rat rat rat

fun channels :: "color \<Rightarrow> rat \<times> rat \<times> rat" where
  "channels (RGB r g b) = (r, g, b)"
| "channels (RGBA r g b a) = (r, g, b)"

fun alpha_of :: "color \<Rightarrow> rat option" where
  "alpha_of (RGB r g b) = None"
| "alpha_of (RGBA r g b a) = Some a"

definition to_rgb :: "color \<Rightarrow> color" where
  "to_rgb c = c"

definition find_intermediate_color :: "color \<Rightarrow> color \<Rightarrow> rat \<Rightarrow> color" where
  "find_intermediate_color lowcolor highcolor intermed =
     (case (channels lowcolor, channels highcolor) of
        ((l0, l1, l2), (h0, h1, h2)) \<Rightarrow>
          RGB (l0 + intermed * (h0 - l0)) (l1 + intermed * (h1 - l1)) (l2 + intermed * (h2 - l2)))"

definition apply_alpha :: "color \<Rightarrow> rat \<Rightarrow> color" where
  "apply_alpha c alpha = (case channels c of (r, g, b) \<Rightarrow> RGBA r g b alpha)"

text \<open>
  Python's \<^verbatim>\<open>round(v, ndigits)\<close>: to the nearest multiple of ten to the power
  \<open>- ndigits\<close>, ties to the even one.
\<close>

definition round_half_even :: "rat \<Rightarrow> int" where
  "round_half_even q =
     (let f = \<lfloor>q\<rfloor>; d = q - of_int f
      in if d < 1 / 2 then f else if 1 / 2 < d then f + 1 else if even f then f else f + 1)"

definition round_py :: "rat \<Rightarrow> nat \<Rightarrow> rat" where
  "round_py v ndigits = of_int (round_half_even (v * 10 ^ ndigits)) / 10 ^ ndigits"

fun round_color :: "color \<Rightarrow> nat \<Rightarrow> color" where
  "round_color (RGB r g b) ndigits =
     RGB (round_py r ndigits) (round_py g ndigits) (round_py b ndigits)"
| "round_color (RGBA r g b a) ndigits =
     RGBA (round_py r ndigits) (round_py g ndigits) (round_py b ndigits) (round_py a ndigits)"

type_synonym ColorScale = "(rat \<times> color) list"

text \<open>
  Modelled from the spec: \<^verbatim>\<open>validate_and_coerce_colorscale\<close> of
  \<^verbatim>\<open>ridgeplot._color.colorscale\<close> is not among the sources. The spec: it "converts
  user-supplied color specs into a canonical ordered list of (position, color) pairs", a
  ColorScale being "an ordered sequence of unique (position in [0,1], Color) pairs, sorted
  ascending by position, with position 0 and 1 present at the boundaries (post-validation
  invariant enforced by the external collaborator)". Only an explicit colorscale argument
  is modelled (palette names and the default need the palette tables): one that satisfies
  the invariant is returned as it is, any other is refused.
\<close>

definition canonical_colorscale :: "ColorScale \<Rightarrow> bool" where
  "canonical_colorscale cs \<longleftrightarrow>
     cs \<noteq> [] \<and> sorted_wrt (<) (map fst cs) \<and> fst (hd cs) = 0 \<and> fst (last cs) = 1"

definition validate_and_coerce_colorscale :: "ColorScale \<Rightarrow> error + ColorScale" where
  "validate_and_coerce_colorscale cs =
     (if canonical_colorscale cs then Inr cs else Inl (ValueError ''Invalid colorscale''))"

subsection \<open>\<^verbatim>\<open>interpolate_color\<close>\<close>

definition interpolate_color :: "ColorScale \<Rightarrow> rat \<Rightarrow> error + color" where
  "interpolate_color colorscale p =
     (if \<not> (0 \<le> p \<and> p \<le> 1)
      then Inl (ValueError ''The interpolation point p should be a float value between 0 and 1'')
      else
        let scale = map fst colorscale;
            colors = map snd colorscale
        in if p \<in> set scale
           then (case index_py scale p of Inl e \<Rightarrow> Inl e | Inr i \<Rightarrow> Inr (colors ! i))
           else
             let colors = map to_rgb colors in
             (case min_py (filter (\<lambda>s. s > p) scale) of Inl e \<Rightarrow> Inl e | Inr ceil_s \<Rightarrow>
             (case max_py (filter (\<lambda>s. s < p) scale) of Inl e \<Rightarrow> Inl e | Inr floor_s \<Rightarrow>
             (case normalise_min_max p floor_s ceil_s of Inl e \<Rightarrow> Inl e | Inr p_normalised \<Rightarrow>
             (case index_py scale floor_s of Inl e \<Rightarrow> Inl e | Inr i_floor \<Rightarrow>
             (case index_py scale ceil_s of Inl e \<Rightarrow> Inl e | Inr i_ceil \<Rightarrow>
                Inr (find_intermediate_color (colors ! i_floor) (colors ! i_ceil)
                       p_normalised)))))))"

subsection \<open>\<^verbatim>\<open>compute_trace_colors\<close>\<close>

text \<open>
  The gradient descriptor \<^verbatim>\<open>go.scatter.Fillgradient\<close> of the charting library is a record
  of the four arguments it is built from. A fill specification is the one-entry dict
  \<^verbatim>\<open>dict(fillcolor=...)\<close> or \<^verbatim>\<open>dict(fillgradient=...)\<close>.
\<close>

record Fillgradient =
  fg_colorscale :: ColorScale
  fg_start :: rat
  fg_stop :: rat
  fg_type :: string

datatype fill_spec = Fillcolor color | FillgradientSpec Fillgradient

text \<open>Python's \<^verbatim>\<open>repr\<close> of a tuple of strings, as the f-string \<^verbatim>\<open>{tuple(...)}\<close> prints it.\<close>

definition str_repr :: "string \<Rightarrow> string" where
  "str_repr s = [CHR 0x27] @ s @ [CHR 0x27]"

fun join_py :: "string \<Rightarrow> string list \<Rightarrow> string" where
  "join_py sep [] = []"
| "join_py sep [s] = s"
| "join_py sep (s # t # rest) = s @ sep @ join_py sep (t # rest)"

definition tuple_repr :: "string list \<Rightarrow> string" where
  "tuple_repr names =
     ''('' @ join_py '', '' (map str_repr names) @ (if length names = 1 then '','' else [])
     @ '')''"

definition colormode_error :: "string \<Rightarrow> error" where
  "colormode_error colormode =
     ValueError
       (''The colormode argument should be 'fillgradient' or one of the solid colormodes ''
        @ tuple_repr (map fst SOLID_COLORMODE_MAPS) @ '', got '' @ colormode @ '' instead.'')"

text \<open>The closure \<^verbatim>\<open>_get_fill_color\<close>, with the variables it captures as arguments.\<close>

definition get_fill_color :: "ColorScale \<Rightarrow> rat option \<Rightarrow> rat \<Rightarrow> error + color" where
  "get_fill_color colorscale opacity p =
     (case interpolate_color colorscale p of
        Inl e \<Rightarrow> Inl e
      | Inr fill_color \<Rightarrow>
          Inr (round_color
                 (case opacity of None \<Rightarrow> fill_color | Some alpha \<Rightarrow> apply_alpha fill_color alpha)
                 12))"

text \<open>
  The nested generators that \<^verbatim>\<open>compute_trace_colors\<close> returns are modelled by the nested
  list they yield when consumed in order; an exception raised while they are consumed is
  the result \<open>Inl\<close>.
\<close>

definition compute_trace_colors ::
  "ColorScale \<Rightarrow> string \<Rightarrow> rat option \<Rightarrow> InterpolationContext \<Rightarrow> error + fill_spec list list" where
  "compute_trace_colors colorscale_arg colormode opacity interpolation_ctx =
     (case validate_and_coerce_colorscale colorscale_arg of
        Inl e \<Rightarrow> Inl e
      | Inr validated \<Rightarrow>
          let colorscale =
                (case opacity of
                   None \<Rightarrow> validated
                 | Some alpha \<Rightarrow> map (\<lambda>(v, c). (v, apply_alpha c alpha)) validated)
          in if colormode = ''fillgradient''
             then Inr (map (\<lambda>row. map (\<lambda>_. FillgradientSpec
                                  \<lparr> fg_colorscale = colorscale,
                                    fg_start = x_min interpolation_ctx,
                                    fg_stop = x_max interpolation_ctx,
                                    fg_type = ''horizontal'' \<rparr>) row)
                        (densities interpolation_ctx))
             else (case map_of SOLID_COLORMODE_MAPS colormode of
                     None \<Rightarrow> Inl (colormode_error colormode)
                   | Some interpolate_func \<Rightarrow>
                       (case interpolate_func interpolation_ctx of
                          Inl e \<Rightarrow> Inl e
                        | Inr interpolants \<Rightarrow>
                            map_err
                              (\<lambda>row. map_err
                                 (\<lambda>p. case get_fill_color colorscale opacity p of
                                         Inl e \<Rightarrow> Inl e
                                       | Inr c \<Rightarrow> Inr (Fillcolor c))
                                 row)
                              interpolants)))"

section \<open>Notions used in the statements\<close>

text \<open>An array that \<^verbatim>\<open>get_xy_extrema\<close> accepts: two members, neither empty.\<close>

definition array_ok :: "'a list list \<Rightarrow> bool" where
  "array_ok a \<longleftrightarrow> length a = 2 \<and> a ! 0 \<noteq> [] \<and> a ! 1 \<noteq> []"

text \<open>
  The position \<^verbatim>\<open>((n_traces - 1) - ith_trace) / (n_traces - 1)\<close> of the trace numbered
  \<open>k + j\<close>.
\<close>

definition trace_position :: "int \<Rightarrow> int \<Rightarrow> nat \<Rightarrow> rat" where
  "trace_position n k j = of_int ((n - 1) - (k + int j)) / of_int (n - 1)"

text \<open>The recognized colormode names: \<^verbatim>\<open>fillgradient\<close> and the keys of the dispatch table.\<close>

definition valid_colormodes :: "string list" where
  "valid_colormodes = ''fillgradient'' # map fst SOLID_COLORMODE_MAPS"

text \<open>The fixed part of the message of the colormode error, before the name it was given.\<close>

definition colormode_error_head :: string where
  "colormode_error_head =
     ''The colormode argument should be 'fillgradient' or one of the solid colormodes ('row-index', 'trace-index', 'trace-index-row-wise', 'mean-minmax', 'mean-means')''"

text \<open>
  The exceptions that the builtins, \<^verbatim>\<open>normalise_min_max\<close>, \<^verbatim>\<open>interpolate_color\<close> and the
  colorscale validation raise; \<open>lib_err r\<close> says that a result is a value or one of them.
\<close>

definition library_errors :: "error list" where
  "library_errors =
     [ValueError ''min() arg is an empty sequence'',
      ValueError ''max() arg is an empty sequence'',
      ValueError ''is not in list'',
      ZeroDivisionError ''division by zero'',
      ValueError ''not enough values to unpack (expected 2)'',
      ValueError ''too many values to unpack (expected 2)'',
      ValueError ''max_ should be greater than min_.'',
      ValueError ''val is out of bounds.'',
      ValueError ''The interpolation point p should be a float value between 0 and 1'',
      ValueError ''Invalid colorscale'']"

definition lib_err :: "error + 'a \<Rightarrow> bool" where
  "lib_err r = (case r of Inl e \<Rightarrow> e \<in> set library_errors | Inr v \<Rightarrow> True)"

text \<open>
  A colour whose RGB channels each lie between the corresponding channels of two colours,
  and a colour whose RGB channels are unchanged by rounding to 12 decimal digits.
\<close>

definition channels_between :: "color \<Rightarrow> color \<Rightarrow> color \<Rightarrow> bool" where
  "channels_between lowcolor highcolor c =
     (case (channels lowcolor, channels highcolor, channels c) of
        ((l0, l1, l2), (h0, h1, h2), (c0, c1, c2)) \<Rightarrow>
          min l0 h0 \<le> c0 \<and> c0 \<le> max l0 h0 \<and>
          min l1 h1 \<le> c1 \<and> c1 \<le> max l1 h1 \<and>
          min l2 h2 \<le> c2 \<and> c2 \<le> max l2 h2)"

definition round_stable :: "color \<Rightarrow> bool" where
  "round_stable c =
     (case channels c of
        (r, g, b) \<Rightarrow> round_py r 12 = r \<and> round_py g 12 = g \<and> round_py b 12 = b)"

section \<open>Properties of \<^verbatim>\<open>get_xy_extrema\<close>\<close>

lemma min_py_eq: "xs \<noteq> [] \<Longrightarrow> min_py xs = Inr (Min (set xs))"
  by (cases xs) (simp_all add: Min.set_eq_fold del: set_simps)

lemma max_py_eq: "xs \<noteq> [] \<Longrightarrow> max_py xs = Inr (Max (set xs))"
  by (cases xs) (simp_all add: Max.set_eq_fold del: set_simps)

lemma array_ok_iff: "array_ok a \<longleftrightarrow> length a = 2 \<and> [] \<notin> set a"
proof (cases "length a = 2")
  case True
  then obtain u v where "a = [u, v]"
    by (cases a; cases "tl a"; cases "tl (tl a)") auto
  then show ?thesis by (auto simp: array_ok_def)
next
  case False
  then show ?thesis by (simp add: array_ok_def)
qed

lemma get_xy_extrema_loop_ok:
  "list_all array_ok arrays \<Longrightarrow>
   get_xy_extrema_loop arrays x y =
     Inr (x @ concat (map (\<lambda>a. a ! 0) arrays), y @ concat (map (\<lambda>a. a ! 1) arrays))"
  by (induction arrays arbitrary: x y) (simp_all add: array_ok_def)

lemma get_xy_extrema_loop_bad:
  "\<not> list_all array_ok arrays \<Longrightarrow> \<exists>e. get_xy_extrema_loop arrays x y = Inl e"
  by (induction arrays arbitrary: x y) (auto simp: array_ok_def)

lemma concat_members_nonempty:
  "arrays \<noteq> [] \<Longrightarrow> list_all array_ok arrays \<Longrightarrow>
   concat (map (\<lambda>a. a ! 0) arrays) \<noteq> [] \<and> concat (map (\<lambda>a. a ! 1) arrays) \<noteq> []"
  by (cases arrays) (simp_all add: array_ok_def)

lemma get_xy_extrema_ok:
  assumes "arrays \<noteq> []" and "list_all array_ok arrays"
  shows "get_xy_extrema arrays =
     Inr (Min (set (concat (map (\<lambda>a. a ! 0) arrays))), Max (set (concat (map (\<lambda>a. a ! 0) arrays))),
          Min (set (concat (map (\<lambda>a. a ! 1) arrays))), Max (set (concat (map (\<lambda>a. a ! 1) arrays))))"
proof -
  have ne: "concat (map (\<lambda>a. a ! 0) arrays) \<noteq> []" "concat (map (\<lambda>a. a ! 1) arrays) \<noteq> []"
    using concat_members_nonempty [OF assms] by simp_all
  show ?thesis
    unfolding get_xy_extrema_def
    using ne by (simp add: get_xy_extrema_loop_ok [OF assms(2)] min_py_eq max_py_eq
        del: set_concat)
qed

lemma get_xy_extrema_raises_iff:
  "(\<exists>e. get_xy_extrema arrays = Inl e) \<longleftrightarrow> arrays = [] \<or> \<not> list_all array_ok arrays"
proof (cases "list_all array_ok arrays")
  case ok: True
  show ?thesis
  proof (cases "arrays = []")
    case True
    then show ?thesis by (simp add: get_xy_extrema_def)
  next
    case False
    then show ?thesis using ok get_xy_extrema_ok [OF False ok] by simp
  qed
next
  case False
  then obtain e where "get_xy_extrema_loop arrays [] [] = Inl e"
    using get_xy_extrema_loop_bad by blast
  then show ?thesis using False by (simp add: get_xy_extrema_def)
qed

text \<open>
  Claim C10. \<^verbatim>\<open>get_xy_extrema\<close> never compares the length of an array's x-sequence
  with that of its y-sequence. For every non-empty collection of arrays in which each
  array has exactly two members and no member is empty it returns the minimum and maximum
  over all first members and over all second members, whatever the members' lengths; and
  it raises exactly when the collection is empty, some array does not have exactly two
  members, or some member is empty.
\<close>

theorem get_xy_extrema_no_equal_length_check:
  fixes arrays :: "'a::linorder list list list"
  shows "(arrays \<noteq> [] \<and> (\<forall>a \<in> set arrays. length a = 2 \<and> [] \<notin> set a) \<longrightarrow>
          get_xy_extrema arrays =
            Inr (Min (set (concat (map (\<lambda>a. a ! 0) arrays))),
                 Max (set (concat (map (\<lambda>a. a ! 0) arrays))),
                 Min (set (concat (map (\<lambda>a. a ! 1) arrays))),
                 Max (set (concat (map (\<lambda>a. a ! 1) arrays)))))
       \<and> ((\<exists>e. get_xy_extrema arrays = Inl e) \<longleftrightarrow>
            arrays = [] \<or> (\<exists>a \<in> set arrays. length a \<noteq> 2 \<or> [] \<in> set a))"
proof -
  have all: "list_all array_ok arrays \<longleftrightarrow> (\<forall>a \<in> set arrays. length a = 2 \<and> [] \<notin> set a)"
    by (simp add: list_all_iff array_ok_iff)
  show ?thesis
    using get_xy_extrema_ok [of arrays] get_xy_extrema_raises_iff [of arrays]
    unfolding all by blast
qed

text \<open>
  The theorem at a collection whose arrays have x- and y-sequences of different lengths
  (3 against 1, and 1 against 2).
\<close>

theorem get_xy_extrema_no_equal_length_check_witness:
  "get_xy_extrema [[[0, 1, 2], [5]], [[7], [3, 4]]] = Inr (0 :: rat, 7, 3, 5)
   \<and> \<not> (\<exists>e. get_xy_extrema [[[0, 1, 2], [5]], [[7], [3, 4 :: rat]]] = Inl e)"
  using get_xy_extrema_no_equal_length_check [of "[[[0, 1, 2], [5]], [[7], [3, 4 :: rat]]]"]
  by simp

section \<open>Properties of \<^verbatim>\<open>interpolate_color\<close>\<close>

lemma index_py_stop:
  "(p, c) \<in> set cs \<Longrightarrow> distinct (map fst cs) \<Longrightarrow>
   \<exists>i. index_py (map fst cs) p = Inr i \<and> i < length cs \<and> map snd cs ! i = c"
proof (induction cs)
  case Nil
  then show ?case by simp
next
  case (Cons s cs)
  show ?case
  proof (cases "fst s = p")
    case True
    have "s = (p, c)"
    proof (rule ccontr)
      assume ne: "s \<noteq> (p, c)"
      with Cons.prems(1) have "(p, c) \<in> set cs" by simp
      then have "p \<in> fst ` set cs" by force
      with Cons.prems(2) True show False by simp
    qed
    then show ?thesis by simp
  next
    case False
    then have "s \<noteq> (p, c)" by auto
    with Cons.prems have "(p, c) \<in> set cs" "distinct (map fst cs)" by simp_all
    then obtain i where "index_py (map fst cs) p = Inr i" "i < length cs" "map snd cs ! i = c"
      using Cons.IH by blast
    with False show ?thesis by simp
  qed
qed

lemma index_py_mem:
  "v \<in> set xs \<Longrightarrow> \<exists>i. index_py xs v = Inr i \<and> i < length xs \<and> xs ! i = v"
proof (induction xs)
  case Nil
  then show ?case by simp
next
  case (Cons x xs)
  show ?case
  proof (cases "x = v")
    case True
    then show ?thesis by simp
  next
    case False
    with Cons.prems have "v \<in> set xs" by simp
    then obtain i where "index_py xs v = Inr i" "i < length xs" "xs ! i = v"
      using Cons.IH by blast
    with False show ?thesis by simp
  qed
qed

lemma interpolate_color_stop_branch:
  assumes "0 \<le> p" "p \<le> 1" "index_py (map fst cs) p = Inr i" "p \<in> set (map fst cs)"
  shows "interpolate_color cs p = Inr (map snd cs ! i)"
  unfolding interpolate_color_def Let_def using assms by simp

lemma stop_at_index:
  assumes "i < length cs" "fst (cs ! i) = p"
  shows "(p, map snd cs ! i) \<in> set cs"
proof -
  have "cs ! i \<in> set cs" using assms(1) by (rule nth_mem)
  moreover have "cs ! i = (p, snd (cs ! i))" using assms(2) by (cases "cs ! i") simp
  moreover have "map snd cs ! i = snd (cs ! i)" using assms(1) by (rule nth_map)
  ultimately show ?thesis by metis
qed

text \<open>
  Claim C3. For every colorscale and every \<open>p\<close> in \<open>[0, 1]\<close> that is the position of
  some stop, \<^verbatim>\<open>interpolate_color\<close> returns the stored colour of a stop at position \<open>p\<close>
  as it is: the exact-match branch returns before any conversion, blend or rounding. Where
  the positions are unique (the ColorScale invariant) that stop is the only one at \<open>p\<close>;
  otherwise it is the first one.
\<close>

theorem interpolate_color_exact_stop:
  assumes "0 \<le> p" and "p \<le> 1" and "p \<in> fst ` set colorscale"
  shows "(\<exists>c. (p, c) \<in> set colorscale \<and> interpolate_color colorscale p = Inr c)
       \<and> (distinct (map fst colorscale) \<longrightarrow>
            (\<forall>c. (p, c) \<in> set colorscale \<longrightarrow> interpolate_color colorscale p = Inr c))"
proof
  have mem: "p \<in> set (map fst colorscale)" using assms(3) by (simp only: set_map)
  from index_py_mem [OF mem] obtain i where i: "index_py (map fst colorscale) p = Inr i"
      "i < length (map fst colorscale)" "map fst colorscale ! i = p"
    by (elim exE conjE)
  have res: "interpolate_color colorscale p = Inr (map snd colorscale ! i)"
    using interpolate_color_stop_branch [OF assms(1,2) i(1) mem] .
  have len: "i < length colorscale" using i(2) by (simp only: length_map)
  then have "fst (colorscale ! i) = p" using i(3) by (simp only: nth_map)
  with len have "(p, map snd colorscale ! i) \<in> set colorscale" by (rule stop_at_index)
  with res show "\<exists>c. (p, c) \<in> set colorscale \<and> interpolate_color colorscale p = Inr c"
    by blast
next
  have mem: "p \<in> set (map fst colorscale)" using assms(3) by (simp only: set_map)
  show "distinct (map fst colorscale) \<longrightarrow>
            (\<forall>c. (p, c) \<in> set colorscale \<longrightarrow> interpolate_color colorscale p = Inr c)"
  proof (intro impI allI)
    fix c
    assume d: "distinct (map fst colorscale)" and m: "(p, c) \<in> set colorscale"
    from index_py_stop [OF m d]
    obtain i where i: "index_py (map fst colorscale) p = Inr i" "map snd colorscale ! i = c"
      by (elim exE conjE)
    show "interpolate_color colorscale p = Inr c"
      using interpolate_color_stop_branch [OF assms(1,2) i(1) mem] i(2) by (simp only:)
  qed
qed

text \<open>The theorem at a three-stop scale whose middle stop carries an alpha channel.\<close>

theorem interpolate_color_exact_stop_witness:
  "interpolate_color [(0, RGB 0 0 0), (1 / 2, RGBA 1 2 3 (1 / 4)), (1, RGB 255 255 255)] (1 / 2)
     = Inr (RGBA 1 2 3 (1 / 4))"
proof -
  have a: "(0::rat) \<le> 1 / 2" "(1 / 2 :: rat) \<le> 1" by simp_all
  have b: "(1 / 2 :: rat) \<in> fst ` set [(0, RGB 0 0 0), (1 / 2, RGBA 1 2 3 (1 / 4)), (1, RGB 255 255 255)]"
    by simp
  have d: "distinct (map fst [(0 :: rat, RGB 0 0 0), (1 / 2, RGBA 1 2 3 (1 / 4)), (1, RGB 255 255 255)])"
    by simp
  have m: "(1 / 2, RGBA 1 2 3 (1 / 4)) \<in> set [(0, RGB 0 0 0), (1 / 2, RGBA 1 2 3 (1 / 4)), (1, RGB 255 255 255)]"
    by simp
  show ?thesis
    by (rule interpolate_color_exact_stop [OF a b, THEN conjunct2, rule_format, OF d m])
qed

lemma min_py_filter:
  assumes "v \<in> set xs" "P v"
  shows "\<exists>m. min_py (filter P xs) = Inr m \<and> m \<in> set xs \<and> P m
           \<and> (\<forall>s \<in> set xs. P s \<longrightarrow> m \<le> s)"
proof -
  have "v \<in> set (filter P xs)" using assms by simp
  then have ne: "filter P xs \<noteq> []" by (cases "filter P xs") simp_all
  have fin: "finite (set (filter P xs))" by simp
  have nes: "set (filter P xs) \<noteq> {}" unfolding set_empty by (rule ne)
  have "Min (set (filter P xs)) \<in> set (filter P xs)" using fin nes by (rule Min_in)
  moreover have "\<forall>s \<in> set xs. P s \<longrightarrow> Min (set (filter P xs)) \<le> s"
    by (simp add: Min_le)
  ultimately show ?thesis using min_py_eq [OF ne] by simp
qed

lemma max_py_filter:
  assumes "v \<in> set xs" "P v"
  shows "\<exists>m. max_py (filter P xs) = Inr m \<and> m \<in> set xs \<and> P m
           \<and> (\<forall>s \<in> set xs. P s \<longrightarrow> s \<le> m)"
proof -
  have "v \<in> set (filter P xs)" using assms by simp
  then have ne: "filter P xs \<noteq> []" by (cases "filter P xs") simp_all
  have fin: "finite (set (filter P xs))" by simp
  have nes: "set (filter P xs) \<noteq> {}" unfolding set_empty by (rule ne)
  have "Max (set (filter P xs)) \<in> set (filter P xs)" using fin nes by (rule Max_in)
  moreover have "\<forall>s \<in> set xs. P s \<longrightarrow> s \<le> Max (set (filter P xs))"
    by (simp add: Max_ge)
  ultimately show ?thesis using max_py_eq [OF ne] by simp
qed

lemma interpolate_color_blend_branch:
  assumes "0 \<le> p" "p \<le> 1" "p \<notin> set (map fst cs)"
    and "min_py (filter (\<lambda>s. s > p) (map fst cs)) = Inr g"
    and "max_py (filter (\<lambda>s. s < p) (map fst cs)) = Inr f"
    and "f < p" "p < g"
    and "index_py (map fst cs) f = Inr i"
    and "index_py (map fst cs) g = Inr j"
  shows "interpolate_color cs p =
           Inr (find_intermediate_color (map snd cs ! i) (map snd cs ! j) ((p - f) / (g - f)))"
proof -
  have n: "normalise_min_max p f g = Inr ((p - f) / (g - f))"
    using assms(6,7) by (simp add: normalise_min_max_def)
  have t: "map to_rgb (map snd cs) = map snd cs"
    by (simp add: to_rgb_def)
  show ?thesis
    unfolding interpolate_color_def Let_def t
    using assms(1,2,3,4,5,8,9) n by simp
qed

lemma canonical_has_0_1:
  assumes "canonical_colorscale cs"
  shows "0 \<in> set (map fst cs)" "1 \<in> set (map fst cs)"
proof -
  from assms have ne: "cs \<noteq> []" and h: "fst (hd cs) = 0" and l: "fst (last cs) = 1"
    by (simp_all add: canonical_colorscale_def)
  have "hd cs \<in> set cs" using ne by (rule hd_in_set)
  then have "fst (hd cs) \<in> fst ` set cs" by (rule imageI)
  then show "0 \<in> set (map fst cs)" using h by simp
  have "last cs \<in> set cs" using ne by (rule last_in_set)
  then have "fst (last cs) \<in> fst ` set cs" by (rule imageI)
  then show "1 \<in> set (map fst cs)" using l by simp
qed

lemma interpolate_color_in_range_ok:
  assumes can: "canonical_colorscale cs" and p0: "0 \<le> p" and p1: "p \<le> 1"
  shows "\<exists>c. interpolate_color cs p = Inr c"
proof (cases "p \<in> set (map fst cs)")
  case True
  from index_py_mem [OF True] obtain i where "index_py (map fst cs) p = Inr i"
    by (elim exE conjE)
  from interpolate_color_stop_branch [OF p0 p1 this True] show ?thesis by (rule exI)
next
  case False
  have z: "0 \<in> set (map fst cs)" and o: "1 \<in> set (map fst cs)"
    using canonical_has_0_1 [OF can] by simp_all
  have "p \<noteq> 0" "p \<noteq> 1" using False z o by auto
  then have lt: "0 < p" "p < 1" using p0 p1 by simp_all
  from min_py_filter [of 1 "map fst cs" "\<lambda>s. s > p", OF o lt(2)]
  obtain g where g: "min_py (filter (\<lambda>s. s > p) (map fst cs)) = Inr g"
      "g \<in> set (map fst cs)" "p < g"
    by (elim exE conjE)
  from max_py_filter [of 0 "map fst cs" "\<lambda>s. s < p", OF z lt(1)]
  obtain f where f: "max_py (filter (\<lambda>s. s < p) (map fst cs)) = Inr f"
      "f \<in> set (map fst cs)" "f < p"
    by (elim exE conjE)
  from index_py_mem [OF f(2)] obtain i where i: "index_py (map fst cs) f = Inr i"
    by (elim exE conjE)
  from index_py_mem [OF g(2)] obtain j where j: "index_py (map fst cs) g = Inr j"
    by (elim exE conjE)
  from interpolate_color_blend_branch [OF p0 p1 False g(1) f(1) f(3) g(3) i j]
  show ?thesis by (rule exI)
qed

lemma interpolate_color_out_of_range:
  assumes "\<not> (0 \<le> p \<and> p \<le> 1)"
  shows "interpolate_color cs p =
    Inl (ValueError ''The interpolation point p should be a float value between 0 and 1'')"
  unfolding interpolate_color_def using assms by simp

text \<open>
  Claim C4. For every canonical colorscale (positions strictly ascending, hence unique,
  the first at 0 and the last at 1) \<^verbatim>\<open>interpolate_color\<close> raises if and only if \<open>p\<close>
  is outside \<open>[0, 1]\<close>, and returns a colour for every \<open>p\<close> inside: the
  \<^verbatim>\<open>min\<close>/\<^verbatim>\<open>max\<close> over an empty filter, the range check of
  \<^verbatim>\<open>normalise_min_max\<close> and the \<^verbatim>\<open>index\<close> lookups never fail there.
\<close>

theorem interpolate_color_raises_iff_out_of_range:
  assumes "canonical_colorscale colorscale"
  shows "((\<exists>e. interpolate_color colorscale p = Inl e) \<longleftrightarrow> \<not> (0 \<le> p \<and> p \<le> 1))
       \<and> (0 \<le> p \<and> p \<le> 1 \<longrightarrow> (\<exists>c. interpolate_color colorscale p = Inr c))"
proof (cases "0 \<le> p \<and> p \<le> 1")
  case True
  then obtain c where "interpolate_color colorscale p = Inr c"
    using interpolate_color_in_range_ok [OF assms] by (elim conjE exE) blast
  with True show ?thesis by simp
next
  case False
  with interpolate_color_out_of_range [OF False, of colorscale] show ?thesis by simp
qed

text \<open>The theorem at a three-stop scale, inside the range (1/2) and outside it (3/2).\<close>

theorem interpolate_color_raises_iff_out_of_range_witness:
  "canonical_colorscale [(0, RGB 0 0 0), (1 / 4, RGB 10 20 30), (1, RGB 255 255 255)]
   \<and> (\<exists>c. interpolate_color [(0, RGB 0 0 0), (1 / 4, RGB 10 20 30), (1, RGB 255 255 255)] (1 / 2)
            = Inr c)
   \<and> (\<exists>e. interpolate_color [(0, RGB 0 0 0), (1 / 4, RGB 10 20 30), (1, RGB 255 255 255)] (3 / 2)
            = Inl e)"
proof -
  have can: "canonical_colorscale [(0, RGB 0 0 0), (1 / 4, RGB 10 20 30), (1, RGB 255 255 255)]"
    by (simp add: canonical_colorscale_def)
  have a: "(0 :: rat) \<le> 1 / 2 \<and> (1 / 2 :: rat) \<le> 1" by simp
  have b: "\<not> ((0 :: rat) \<le> 3 / 2 \<and> (3 / 2 :: rat) \<le> 1)" by simp
  note t1 = interpolate_color_raises_iff_out_of_range [OF can, of "1 / 2", THEN conjunct2, rule_format, OF a]
  note t2 = interpolate_color_raises_iff_out_of_range [OF can, of "3 / 2", THEN conjunct1, THEN iffD2, OF b]
  from can t1 t2 show ?thesis by (intro conjI)
qed

section \<open>Properties of \<^verbatim>\<open>from_densities\<close> and the end-to-end example\<close>

lemma from_densities_raises:
  "from_densities dens = Inl (TypeError ''get_xy_extrema() got an unexpected keyword argument'')"
  by (simp add: from_densities_def get_xy_extrema_kw_def get_xy_extrema_params_def)

text \<open>
  Had the keyword matched, \<^verbatim>\<open>get_xy_extrema\<close> would take each row for an array: a row
  of one trace is refused as not 2D.
\<close>

lemma get_xy_extrema_on_rows:
  "get_xy_extrema [[[[0, 1, 2], [1, 1, 1 :: rat]]]] = Inl (ValueError ''Expected 2D array'')"
  by (simp add: get_xy_extrema_def)

text \<open>
  Claim C1 (the code does not do what the claim says). \<^verbatim>\<open>from_densities\<close> passes the
  dataset under the keyword \<^verbatim>\<open>densities\<close>, which \<^verbatim>\<open>get_xy_extrema\<close> does not declare, so
  the call raises TypeError instead of returning a context: here for the well-formed
  one-row, one-trace dataset in both shapes of a trace.
\<close>

theorem from_densities_keyword_mismatch:
  "from_densities [[[[0, 1, 2], [1, 1, 1]]]]
     = Inl (TypeError ''get_xy_extrema() got an unexpected keyword argument'')
   \<and> from_densities [[[[0, 1], [1, 1], [2, 1]]]]
     = Inl (TypeError ''get_xy_extrema() got an unexpected keyword argument'')"
  by (simp add: from_densities_def get_xy_extrema_kw_def get_xy_extrema_params_def)

lemma weighted_mean_pair_shape:
  "weighted_mean [[0, 1, 2], [1, 1, 1]] = Inl (ValueError ''too many values to unpack (expected 2)'')"
  by (simp add: weighted_mean_def zip_star_def upt_rec)

lemma weighted_mean_point_shape:
  "weighted_mean [[0, 1], [1, 1], [2, 1]] = Inr 1"
  by (simp add: weighted_mean_def zip_star_def upt_rec mul_def div_py_def)

lemma canonical_black_white:
  "canonical_colorscale [(0, RGB 0 0 0), (1, RGB 255 255 255)]"
  by (simp add: canonical_colorscale_def)

lemma map_of_mean_minmax:
  "map_of SOLID_COLORMODE_MAPS ''mean-minmax'' = Some interpolate_mean_minmax"
  by (simp add: SOLID_COLORMODE_MAPS_def)

lemma round_py_half_255: "round_py (255 / 2) 12 = 255 / 2"
proof -
  have "(255 / 2 :: rat) * 10 ^ 12 = of_int 127500000000000" by simp
  then have "round_half_even ((255 / 2) * 10 ^ 12) = 127500000000000"
    unfolding round_half_even_def Let_def by (simp only: floor_of_int) simp
  then show ?thesis unfolding round_py_def by simp
qed

lemma get_fill_color_black_white_half:
  "get_fill_color [(0, RGB 0 0 0), (1, RGB 255 255 255)] None (1 / 2)
     = Inr (RGB (255 / 2) (255 / 2) (255 / 2))"
proof -
  have "interpolate_color [(0, RGB 0 0 0), (1, RGB 255 255 255)] (1 / 2)
          = Inr (RGB (255 / 2) (255 / 2) (255 / 2))"
    by (simp add: interpolate_color_def normalise_min_max_def find_intermediate_color_def
        to_rgb_def)
  then show ?thesis by (simp add: get_fill_color_def round_py_half_255)
qed

text \<open>
  Claim C2, as stated, fails on the code: for the dataset \<open>[[([0,1,2],[1,1,1])]]\<close> the
  context cannot be derived (\<^verbatim>\<open>from_densities\<close> raises), and with the context the claim
  describes built by hand the \<^verbatim>\<open>mean-minmax\<close> strategy raises too, because
  \<^verbatim>\<open>x, y = zip(*trace)\<close> unpacks a trace given as a pair of three-element sequences into
  three values.
\<close>

theorem end_to_end_pair_shape_counterexample:
  "from_densities [[[[0, 1, 2], [1, 1, 1]]]]
     = Inl (TypeError ''get_xy_extrema() got an unexpected keyword argument'')
   \<and> compute_trace_colors [(0, RGB 0 0 0), (1, RGB 255 255 255)] ''mean-minmax'' None
       \<lparr> densities = [[[[0, 1, 2], [1, 1, 1]]]], n_rows = 1, n_traces = 1, x_min = 0, x_max = 2 \<rparr>
     = Inl (ValueError ''too many values to unpack (expected 2)'')"
proof
  show "from_densities [[[[0, 1, 2], [1, 1, 1]]]]
     = Inl (TypeError ''get_xy_extrema() got an unexpected keyword argument'')"
    by (rule from_densities_raises)
next
  have "interpolate_mean_minmax
         \<lparr> densities = [[[[0, 1, 2], [1, 1, 1]]]], n_rows = 1, n_traces = 1, x_min = 0, x_max = 2 \<rparr>
        = Inl (ValueError ''too many values to unpack (expected 2)'')"
    by (simp add: interpolate_mean_minmax_def weighted_mean_pair_shape)
  then show "compute_trace_colors [(0, RGB 0 0 0), (1, RGB 255 255 255)] ''mean-minmax'' None
       \<lparr> densities = [[[[0, 1, 2], [1, 1, 1]]]], n_rows = 1, n_traces = 1, x_min = 0, x_max = 2 \<rparr>
     = Inl (ValueError ''too many values to unpack (expected 2)'')"
    by (simp add: compute_trace_colors_def validate_and_coerce_colorscale_def
        canonical_black_white map_of_mean_minmax)
qed

text \<open>
  Claim C2 as amended. With the single trace given as the sequence of its \<open>(x, y)\<close>
  points, \<open>[[[(0,1),(1,1),(2,1)]]]\<close>, and the context of that dataset (one row, one
  trace, global x-extrema 0 and 2), colormode \<^verbatim>\<open>mean-minmax\<close>, no opacity and the
  colorscale from black at 0 to white at 1: the y-weighted mean of the trace is 1, the
  interpolant is 1/2, and \<^verbatim>\<open>compute_trace_colors\<close> yields exactly one fill specification,
  whose colour is rgb(127.5, 127.5, 127.5).
\<close>

theorem end_to_end_mean_minmax:
  "weighted_mean [[0, 1], [1, 1], [2, 1]] = Inr 1
   \<and> interpolate_mean_minmax
       \<lparr> densities = [[[[0, 1], [1, 1], [2, 1]]]], n_rows = 1, n_traces = 1, x_min = 0, x_max = 2 \<rparr>
     = Inr [[1 / 2]]
   \<and> compute_trace_colors [(0, RGB 0 0 0), (1, RGB 255 255 255)] ''mean-minmax'' None
       \<lparr> densities = [[[[0, 1], [1, 1], [2, 1]]]], n_rows = 1, n_traces = 1, x_min = 0, x_max = 2 \<rparr>
     = Inr [[Fillcolor (RGB (255 / 2) (255 / 2) (255 / 2))]]"
proof -
  have m: "interpolate_mean_minmax
       \<lparr> densities = [[[[0, 1], [1, 1], [2, 1]]]], n_rows = 1, n_traces = 1, x_min = 0, x_max = 2 \<rparr>
     = Inr [[1 / 2]]"
    by (simp add: interpolate_mean_minmax_def weighted_mean_point_shape normalise_min_max_def)
  have c: "compute_trace_colors [(0, RGB 0 0 0), (1, RGB 255 255 255)] ''mean-minmax'' None
       \<lparr> densities = [[[[0, 1], [1, 1], [2, 1]]]], n_rows = 1, n_traces = 1, x_min = 0, x_max = 2 \<rparr>
     = Inr [[Fillcolor (RGB (255 / 2) (255 / 2) (255 / 2))]]"
    unfolding compute_trace_colors_def
    by (simp add: validate_and_coerce_colorscale_def canonical_black_white map_of_mean_minmax m
        get_fill_color_black_white_half)
  from weighted_mean_point_shape m c show ?thesis by (intro conjI)
qed

section \<open>Properties of the index strategies\<close>

lemma map_err_ok:
  "(\<And>x. x \<in> set xs \<Longrightarrow> f x = Inr (g x)) \<Longrightarrow> map_err f xs = Inr (map g xs)"
  by (induction xs) simp_all

lemma interpolate_row_index_ok:
  assumes "n_rows ctx \<noteq> 1"
  shows "interpolate_row_index ctx =
     Inr (map (\<lambda>(ith_row, row).
                 replicate (length row)
                   (of_int ((n_rows ctx - 1) - int ith_row) / of_int (n_rows ctx - 1)))
            (enumerate 0 (densities ctx)))"
  unfolding interpolate_row_index_def
  by (rule map_err_ok) (use assms in \<open>auto simp: div_py_def\<close>)

lemma last_enumerate:
  "xs \<noteq> [] \<Longrightarrow> last (enumerate n xs) = (n + length xs - 1, last xs)"
proof -
  assume ne: "xs \<noteq> []"
  then have lt: "length xs - 1 < length xs" by (cases xs) simp_all
  have en: "enumerate n xs \<noteq> []" using ne by (cases xs) simp_all
  have "last (enumerate n xs) = enumerate n xs ! (length xs - 1)"
    using en by (simp add: last_conv_nth)
  also have "\<dots> = (n + (length xs - 1), xs ! (length xs - 1))"
    using lt by (rule nth_enumerate_eq)
  also have "\<dots> = (n + length xs - 1, last xs)"
    using ne by (cases xs) (simp_all add: last_conv_nth)
  finally show ?thesis .
qed

lemma trace_index_row_ok:
  assumes "n \<noteq> 1"
  shows "trace_index_row n row acc k =
           Inr (acc @ map (trace_position n k) [0 ..< length row], k + int (length row))"
proof (induction row arbitrary: acc k)
  case Nil
  then show ?case by simp
next
  case (Cons t row)
  have d: "div_py (of_int ((n - 1) - k)) (of_int (n - 1)) = Inr (trace_position n k 0)"
    using assms by (simp add: div_py_def trace_position_def)
  have s: "map (trace_position n (k + 1)) [0 ..< length row]
             = map (trace_position n k) [Suc 0 ..< Suc (length row)]"
  proof -
    have "[Suc 0 ..< Suc (length row)] = map Suc [0 ..< length row]"
      by (simp only: map_Suc_upt)
    then show ?thesis
      by (simp add: trace_position_def add.assoc add.commute)
  qed
  have u: "[0 ..< Suc (length row)] = 0 # [Suc 0 ..< Suc (length row)]"
    by (simp add: upt_rec)
  have "trace_index_row n (t # row) acc k
          = trace_index_row n row (acc @ [trace_position n k 0]) (k + 1)"
    by (simp only: trace_index_row.simps d sum.case)
  also have "\<dots> = Inr ((acc @ [trace_position n k 0])
                          @ map (trace_position n (k + 1)) [0 ..< length row],
                        (k + 1) + int (length row))"
    by (rule Cons.IH)
  also have "\<dots> = Inr (acc @ map (trace_position n k) [0 ..< length (t # row)],
                        k + int (length (t # row)))"
    unfolding s by (simp add: u del: upt_Suc)
  finally show ?case .
qed

lemma trace_position_shift:
  "map (trace_position n (k + int a)) [0 ..< b] = map (trace_position n k) [a ..< a + b]"
proof -
  have "[a ..< a + b] = map (\<lambda>j. j + a) [0 ..< b]"
    by (simp add: map_add_upt add.commute)
  then show ?thesis
    by (simp add: trace_position_def comp_def add.assoc add.commute)
qed

lemma trace_index_rows_ok:
  assumes "n \<noteq> 1"
  shows "\<exists>qs. trace_index_rows n rows ps k = Inr (ps @ qs)
           \<and> map length qs = map length rows
           \<and> concat qs = map (trace_position n k) [0 ..< sum_list (map length rows)]"
proof (induction rows arbitrary: ps k)
  case Nil
  then show ?case by simp
next
  case (Cons row rows)
  let ?r = "map (trace_position n k) [0 ..< length row]"
  from Cons.IH [of "ps @ [?r]" "k + int (length row)"]
  obtain qs where qs: "trace_index_rows n rows (ps @ [?r]) (k + int (length row)) = Inr ((ps @ [?r]) @ qs)"
      "map length qs = map length rows"
      "concat qs = map (trace_position n (k + int (length row))) [0 ..< sum_list (map length rows)]"
    by (elim exE conjE)
  have r: "trace_index_rows n (row # rows) ps k = Inr (ps @ (?r # qs))"
    using qs(1) by (simp add: trace_index_row_ok [OF assms])
  have l: "map length (?r # qs) = map length (row # rows)"
    using qs(2) by simp
  have c: "concat (?r # qs) = map (trace_position n k) [0 ..< sum_list (map length (row # rows))]"
    using qs(3) by (simp add: trace_position_shift upt_add_eq_append [of 0, simplified])
  from r l c show ?case by blast
qed

lemma sum_list_int_length:
  "sum_list (map (\<lambda>row. int (length row)) rows) = int (sum_list (map length rows))"
  by (induction rows) simp_all

text \<open>
  Claim C6. For every context whose \<^verbatim>\<open>n_rows\<close> is the number of rows of its dataset, with
  at least 2 rows, the \<^verbatim>\<open>row-index\<close> strategy returns one list of positions per row, in
  which every trace of the first row has position 1 and every trace of the last row has
  position 0. For every context whose \<^verbatim>\<open>n_traces\<close> is the total number of traces of its
  dataset, at least 2, the \<^verbatim>\<open>trace-index\<close> strategy returns positions of the dataset's
  shape, in which the first trace in row-major order has position 1 and the last has
  position 0.
\<close>

theorem index_strategies_first_one_last_zero:
  "(n_rows ctx = int (length (densities ctx)) \<and> 2 \<le> length (densities ctx) \<longrightarrow>
      (\<exists>ps. interpolate_row_index ctx = Inr ps
         \<and> length ps = length (densities ctx)
         \<and> hd ps = replicate (length (hd (densities ctx))) 1
         \<and> last ps = replicate (length (last (densities ctx))) 0))
   \<and> (n_traces ctx = sum_list (map (\<lambda>row. int (length row)) (densities ctx))
        \<and> 2 \<le> n_traces ctx \<longrightarrow>
      (\<exists>ps. interpolate_trace_index ctx = Inr ps
         \<and> map length ps = map length (densities ctx)
         \<and> hd (concat ps) = 1
         \<and> last (concat ps) = 0))"
proof (intro conjI impI)
  assume a: "n_rows ctx = int (length (densities ctx)) \<and> 2 \<le> length (densities ctx)"
  let ?d = "densities ctx"
  let ?f = "\<lambda>(ith_row, row). replicate (length row)
               (of_int ((n_rows ctx - 1) - int ith_row) / of_int (n_rows ctx - 1) :: rat)"
  from a have n1: "n_rows ctx \<noteq> 1" and ne: "?d \<noteq> []" by auto
  have ene: "enumerate 0 ?d \<noteq> []" using ne by (cases ?d) simp_all
  have r: "interpolate_row_index ctx = Inr (map ?f (enumerate 0 ?d))"
    by (rule interpolate_row_index_ok [OF n1])
  have h0: "hd (enumerate 0 ?d) = (0, hd ?d)" using ne by (cases ?d) simp_all
  have "hd (map ?f (enumerate 0 ?d)) = ?f (hd (enumerate 0 ?d))"
    using ene by (rule hd_map)
  also have "\<dots> = replicate (length (hd ?d)) 1"
    using a by (simp add: h0)
  finally have h: "hd (map ?f (enumerate 0 ?d)) = replicate (length (hd ?d)) 1" .
  have "last (map ?f (enumerate 0 ?d)) = ?f (last (enumerate 0 ?d))"
    using ene by (rule last_map)
  also have "\<dots> = replicate (length (last ?d)) 0"
    using a by (simp add: last_enumerate [OF ne] of_nat_diff)
  finally have l: "last (map ?f (enumerate 0 ?d)) = replicate (length (last ?d)) 0" .
  from r h l show "\<exists>ps. interpolate_row_index ctx = Inr ps
         \<and> length ps = length ?d
         \<and> hd ps = replicate (length (hd ?d)) 1
         \<and> last ps = replicate (length (last ?d)) 0"
    by simp
next
  assume a: "n_traces ctx = sum_list (map (\<lambda>row. int (length row)) (densities ctx))
        \<and> 2 \<le> n_traces ctx"
  let ?d = "densities ctx"
  define N where "N = sum_list (map length ?d)"
  from a have n: "n_traces ctx = int N" by (simp add: sum_list_int_length N_def)
  with a have N2: "2 \<le> N" by simp
  have n1: "n_traces ctx \<noteq> 1" using a by simp
  from trace_index_rows_ok [OF n1, of ?d "[]" 0]
  obtain qs where qs: "trace_index_rows (n_traces ctx) ?d [] 0 = Inr ([] @ qs)"
      "map length qs = map length ?d"
      "concat qs = map (trace_position (n_traces ctx) 0) [0 ..< N]"
    unfolding N_def by (elim exE conjE)
  have r: "interpolate_trace_index ctx = Inr qs"
    using qs(1) by (simp add: interpolate_trace_index_def)
  have une: "[0 ..< N] \<noteq> []" using N2 by simp
  have "hd (concat qs) = trace_position (n_traces ctx) 0 (hd [0 ..< N])"
    unfolding qs(3) using une by (rule hd_map)
  also have "\<dots> = 1" using N2 n by (simp add: trace_position_def)
  finally have h: "hd (concat qs) = 1" .
  have "last (concat qs) = trace_position (n_traces ctx) 0 (last [0 ..< N])"
    unfolding qs(3) using une by (rule last_map)
  also have "\<dots> = 0" using N2 n by (simp add: trace_position_def of_nat_diff)
  finally have l: "last (concat qs) = 0" .
  from r qs(2) h l show "\<exists>ps. interpolate_trace_index ctx = Inr ps
         \<and> map length ps = map length ?d
         \<and> hd (concat ps) = 1
         \<and> last (concat ps) = 0"
    by simp
qed

text \<open>
  The theorem at a dataset of two rows, of one and of two traces, with its context.
\<close>

theorem index_strategies_first_one_last_zero_witness:
  "(\<exists>ps. interpolate_row_index
           \<lparr> densities = [[[[0, 1]]], [[[0, 1]], [[1, 1]]]], n_rows = 2, n_traces = 3,
             x_min = 0, x_max = 1 \<rparr> = Inr ps
        \<and> length ps = 2 \<and> hd ps = [1] \<and> last ps = [0, 0])
   \<and> (\<exists>ps. interpolate_trace_index
           \<lparr> densities = [[[[0, 1]]], [[[0, 1]], [[1, 1]]]], n_rows = 2, n_traces = 3,
             x_min = 0, x_max = 1 \<rparr> = Inr ps
        \<and> map length ps = [1, 2] \<and> hd (concat ps) = 1 \<and> last (concat ps) = 0)"
proof -
  define C where "C = \<lparr> densities = [[[[0, 1]]], [[[0, 1 :: rat]], [[1, 1]]]], n_rows = 2,
    n_traces = 3, x_min = 0, x_max = 1 \<rparr>"
  have h1: "n_rows C = int (length (densities C)) \<and> 2 \<le> length (densities C)"
    by (simp add: C_def)
  have h2: "n_traces C = sum_list (map (\<lambda>row. int (length row)) (densities C))
              \<and> 2 \<le> n_traces C"
    by (simp add: C_def)
  note t = index_strategies_first_one_last_zero [of C]
  from t [THEN conjunct1, rule_format, OF h1]
  have r: "\<exists>ps. interpolate_row_index C = Inr ps
        \<and> length ps = 2 \<and> hd ps = [1] \<and> last ps = [0, 0]"
    by (simp add: C_def numeral_2_eq_2)
  from t [THEN conjunct2, rule_format, OF h2]
  have i: "\<exists>ps. interpolate_trace_index C = Inr ps
        \<and> map length ps = [1, 2] \<and> hd (concat ps) = 1 \<and> last (concat ps) = 0"
    by (simp add: C_def numeral_2_eq_2)
  from r i show ?thesis unfolding C_def by (rule conjI)
qed

section \<open>Properties of the mean strategies\<close>

lemma fold_min_const: "\<forall>m \<in> set ns. m = n \<Longrightarrow> fold min ns (n :: nat) = n"
  by (induction ns) simp_all

lemma zip_star_points:
  assumes "t \<noteq> []" and "\<forall>p \<in> set t. length p = 2"
  shows "zip_star t = [map (\<lambda>p. p ! 0) t, map (\<lambda>p. p ! 1) t]"
proof -
  from assms(1) obtain x rest where t: "t = x # rest" by (cases t) simp_all
  have lx: "length x = 2" using assms(2) t by simp
  have "\<forall>m \<in> set (map length rest). m = 2" using assms(2) t by simp
  then have f: "fold min (map length rest) 2 = 2" by (rule fold_min_const)
  have u: "[0 ..< 2] = [0, Suc 0]" by (simp add: upt_rec numeral_2_eq_2)
  show ?thesis
    unfolding zip_star_def t list.case lx f u by simp
qed

lemma mul_map_map: "mul (map f t) (map g t) = map (\<lambda>p. f p * g p) t"
  by (induction t) (simp_all add: mul_def)

lemma weighted_mean_points:
  assumes "t \<noteq> []" and "\<forall>p \<in> set t. length p = 2"
    and "sum_list (map (\<lambda>p. p ! 1) t) \<noteq> 0"
  shows "weighted_mean t =
           Inr (sum_list (map (\<lambda>p. p ! 0 * p ! 1) t) / sum_list (map (\<lambda>p. p ! 1) t))"
  unfolding weighted_mean_def zip_star_points [OF assms(1,2)]
  using assms(3) by (simp add: mul_map_map div_py_def)

lemma Min_of_row_mins:
  fixes means :: "'a::linorder list list"
  assumes "means \<noteq> []" and "[] \<notin> set means"
  shows "Min (set (map (\<lambda>r. Min (set r)) means)) = Min (set (concat means))"
proof -
  let ?I = "set (map (\<lambda>r. Min (set r)) means)"
  have fin: "finite ?I" by simp
  have ne: "?I \<noteq> {}" using assms(1) by simp
  have "Min ?I \<in> ?I" using fin ne by (rule Min_in)
  then obtain r where r: "r \<in> set means" "Min ?I = Min (set r)" by auto
  have rne: "set r \<noteq> {}" using r(1) assms(2) by auto
  have "Min (set r) \<in> set r" using rne by (intro Min_in) simp
  then have mem: "Min ?I \<in> set (concat means)" using r by auto
  have low: "Min ?I \<le> y" if "y \<in> set (concat means)" for y
  proof -
    from that obtain q where q: "q \<in> set means" "y \<in> set q" by auto
    have "Min ?I \<le> Min (set q)" using q(1) by (intro Min_le) simp_all
    also have "\<dots> \<le> y" using q(2) by (intro Min_le) simp_all
    finally show ?thesis .
  qed
  show ?thesis
    by (rule sym, rule Min_eqI) (use mem low in simp_all)
qed

lemma Max_of_row_maxs:
  fixes means :: "'a::linorder list list"
  assumes "means \<noteq> []" and "[] \<notin> set means"
  shows "Max (set (map (\<lambda>r. Max (set r)) means)) = Max (set (concat means))"
proof -
  let ?I = "set (map (\<lambda>r. Max (set r)) means)"
  have fin: "finite ?I" by simp
  have ne: "?I \<noteq> {}" using assms(1) by simp
  have "Max ?I \<in> ?I" using fin ne by (rule Max_in)
  then obtain r where r: "r \<in> set means" "Max ?I = Max (set r)" by auto
  have rne: "set r \<noteq> {}" using r(1) assms(2) by auto
  have "Max (set r) \<in> set r" using rne by (intro Max_in) simp
  then have mem: "Max ?I \<in> set (concat means)" using r by auto
  have up: "y \<le> Max ?I" if "y \<in> set (concat means)" for y
  proof -
    from that obtain q where q: "q \<in> set means" "y \<in> set q" by auto
    have "y \<le> Max (set q)" using q(2) by (intro Max_ge) simp_all
    also have "\<dots> \<le> Max ?I" using q(1) by (intro Max_ge) simp_all
    finally show ?thesis .
  qed
  show ?thesis
    by (rule sym, rule Max_eqI) (use mem up in simp_all)
qed

lemma row_extrema_ok:
  assumes "[] \<notin> set means"
  shows "map_err min_py means = Inr (map (\<lambda>r. Min (set r)) means)"
    and "map_err max_py means = Inr (map (\<lambda>r. Max (set r)) means)"
proof -
  show "map_err min_py means = Inr (map (\<lambda>r. Min (set r)) means)"
  proof (rule map_err_ok)
    fix r assume "r \<in> set means"
    with assms have "r \<noteq> []" by auto
    then show "min_py r = Inr (Min (set r))" by (rule min_py_eq)
  qed
  show "map_err max_py means = Inr (map (\<lambda>r. Max (set r)) means)"
  proof (rule map_err_ok)
    fix r assume "r \<in> set means"
    with assms have "r \<noteq> []" by auto
    then show "max_py r = Inr (Max (set r))" by (rule max_py_eq)
  qed
qed

lemma normalise_rows_ok:
  assumes "lo < hi" and "\<forall>m \<in> set (concat means). lo \<le> m \<and> m \<le> hi"
  shows "map_err (\<lambda>row. map_err (\<lambda>mean. normalise_min_max mean lo hi) row) means
           = Inr (map (map (\<lambda>m. (m - lo) / (hi - lo))) means)"
proof (rule map_err_ok)
  fix row assume row: "row \<in> set means"
  show "map_err (\<lambda>mean. normalise_min_max mean lo hi) row
          = Inr (map (\<lambda>m. (m - lo) / (hi - lo)) row)"
  proof (rule map_err_ok)
    fix m assume "m \<in> set row"
    with row have "m \<in> set (concat means)" by auto
    with assms(2) have "lo \<le> m \<and> m \<le> hi" by (rule bspec)
    with assms(1) show "normalise_min_max m lo hi = Inr ((m - lo) / (hi - lo))"
      by (simp add: normalise_min_max_def)
  qed
qed

lemma interpolate_mean_means_ok:
  assumes m: "map_err (\<lambda>row. map_err weighted_mean row) (densities ctx) = Inr means"
    and ne: "means \<noteq> []" and rows: "[] \<notin> set means"
    and lt: "Min (set (concat means)) < Max (set (concat means))"
  shows "interpolate_mean_means ctx =
           Inr (map (map (\<lambda>m. (m - Min (set (concat means)))
                                / (Max (set (concat means)) - Min (set (concat means)))))
                  means)"
proof -
  let ?lo = "Min (set (concat means))" and ?hi = "Max (set (concat means))"
  have mne: "map (\<lambda>r. Min (set r)) means \<noteq> []" "map (\<lambda>r. Max (set r)) means \<noteq> []"
    using ne by simp_all
  have lo: "min_py (map (\<lambda>r. Min (set r)) means) = Inr ?lo"
    using min_py_eq [OF mne(1)] Min_of_row_mins [OF ne rows] by (simp only:)
  have hi: "max_py (map (\<lambda>r. Max (set r)) means) = Inr ?hi"
    using max_py_eq [OF mne(2)] Max_of_row_maxs [OF ne rows] by (simp only:)
  have b: "\<forall>m \<in> set (concat means). ?lo \<le> m \<and> m \<le> ?hi"
    by (intro ballI conjI Min_le Max_ge) simp_all
  show ?thesis
    unfolding interpolate_mean_means_def m sum.case row_extrema_ok [OF rows] lo hi
    by (rule normalise_rows_ok [OF lt b])
qed

text \<open>
  Claim C7, as stated, fails on the code: for a dataset with a single trace (or whose
  traces all have the same weighted mean) the minimum and the maximum of the means
  coincide and the guard \<^verbatim>\<open>max_ <= min_\<close> of \<^verbatim>\<open>normalise_min_max\<close> raises, so no
  trace is given a position.
\<close>

theorem mean_means_single_trace_counterexample:
  "interpolate_mean_means
     \<lparr> densities = [[[[0, 1], [1, 1], [2, 1]]]], n_rows = 1, n_traces = 1, x_min = 0, x_max = 2 \<rparr>
   = Inl (ValueError ''max_ should be greater than min_.'')"
  by (simp add: interpolate_mean_means_def weighted_mean_def zip_star_def upt_rec mul_def
      div_py_def normalise_min_max_def)

text \<open>
  Claim C7 as amended. For every dataset on which every trace's weighted mean can be
  computed (\<open>means\<close> holds them, row by row), with at least one row, no empty row, and
  means that are not all equal, the \<^verbatim>\<open>mean-means\<close> strategy returns positions of the
  dataset's shape, each the trace's mean normalised against the minimum and the maximum of
  all the means (not the context's x-extrema): a trace with the smallest mean has position
  0 and a trace with the largest has position 1.
\<close>

theorem mean_means_smallest_zero_largest_one:
  assumes "map_err (\<lambda>row. map_err weighted_mean row) (densities ctx) = Inr means"
    and "means \<noteq> []" and "[] \<notin> set means"
    and "Min (set (concat means)) < Max (set (concat means))"
  shows "\<exists>ps. interpolate_mean_means ctx = Inr ps
           \<and> map length ps = map length means
           \<and> (\<forall>i < length means. \<forall>j < length (means ! i).
                 ps ! i ! j = (means ! i ! j - Min (set (concat means)))
                              / (Max (set (concat means)) - Min (set (concat means)))
                 \<and> (means ! i ! j = Min (set (concat means)) \<longrightarrow> ps ! i ! j = 0)
                 \<and> (means ! i ! j = Max (set (concat means)) \<longrightarrow> ps ! i ! j = 1))"
proof -
  let ?lo = "Min (set (concat means))" and ?hi = "Max (set (concat means))"
  let ?ps = "map (map (\<lambda>m. (m - ?lo) / (?hi - ?lo))) means"
  have r: "interpolate_mean_means ctx = Inr ?ps"
    by (rule interpolate_mean_means_ok [OF assms])
  have l: "map length ?ps = map length means" by simp
  have d: "?hi - ?lo \<noteq> 0" using assms(4) by simp
  have p: "\<forall>i < length means. \<forall>j < length (means ! i).
             ?ps ! i ! j = (means ! i ! j - ?lo) / (?hi - ?lo)
             \<and> (means ! i ! j = ?lo \<longrightarrow> ?ps ! i ! j = 0)
             \<and> (means ! i ! j = ?hi \<longrightarrow> ?ps ! i ! j = 1)"
    using d by simp
  from r l p show ?thesis by (intro exI [of _ ?ps] conjI)
qed

text \<open>
  The theorem at a dataset of three traces in two rows, with weighted means 1, 2 and 3/4:
  the third trace has the smallest mean and the second the largest.
\<close>

theorem mean_means_smallest_zero_largest_one_witness:
  "\<exists>ps. interpolate_mean_means
          \<lparr> densities = [[[[0, 1], [1, 1], [2, 1]]], [[[0, 1], [4, 1]], [[0, 1], [1, 3]]]],
            n_rows = 2, n_traces = 3, x_min = 0, x_max = 4 \<rparr> = Inr ps
        \<and> map length ps = [1, 2] \<and> ps ! 1 ! 1 = 0 \<and> ps ! 1 ! 0 = 1"
proof -
  define C where "C = \<lparr> densities = [[[[0, 1], [1, 1], [2, 1 :: rat]]], [[[0, 1], [4, 1]], [[0, 1], [1, 3]]]],
            n_rows = 2, n_traces = 3, x_min = 0, x_max = 4 \<rparr>"
  define means where "means = [[1], [2, 3 / 4 :: rat]]"
  have m: "map_err (\<lambda>row. map_err weighted_mean row) (densities C) = Inr means"
    by (simp add: C_def means_def weighted_mean_def zip_star_def upt_rec mul_def div_py_def)
  have ne: "means \<noteq> []" and rows: "[] \<notin> set means" by (simp_all add: means_def)
  have lo: "Min (set (concat means)) = 3 / 4" and hi: "Max (set (concat means)) = 2"
    by (simp_all add: means_def)
  have lt: "Min (set (concat means)) < Max (set (concat means))"
    unfolding lo hi by simp
  from mean_means_smallest_zero_largest_one [OF m ne rows lt]
  obtain ps where ps: "interpolate_mean_means C = Inr ps"
      "map length ps = map length means"
      "\<forall>i < length means. \<forall>j < length (means ! i).
                 ps ! i ! j = (means ! i ! j - Min (set (concat means)))
                              / (Max (set (concat means)) - Min (set (concat means)))
                 \<and> (means ! i ! j = Min (set (concat means)) \<longrightarrow> ps ! i ! j = 0)
                 \<and> (means ! i ! j = Max (set (concat means)) \<longrightarrow> ps ! i ! j = 1)"
    by (elim exE conjE)
  have i1: "1 < length means" and j1: "1 < length (means ! 1)" and j0: "0 < length (means ! 1)"
    by (simp_all add: means_def)
  have v11: "means ! 1 ! 1 = Min (set (concat means))" unfolding lo by (simp add: means_def)
  have v10: "means ! 1 ! 0 = Max (set (concat means))" unfolding hi by (simp add: means_def)
  have z: "ps ! 1 ! 1 = 0"
    by (rule ps(3) [rule_format, OF i1 j1, THEN conjunct2, THEN conjunct1, THEN mp, OF v11])
  have o: "ps ! 1 ! 0 = 1"
    by (rule ps(3) [rule_format, OF i1 j0, THEN conjunct2, THEN conjunct2, THEN mp, OF v10])
  have l: "map length ps = [1, 2]" using ps(2) by (simp add: means_def numeral_2_eq_2)
  from ps(1) l z o show ?thesis unfolding C_def by (intro exI [of _ ps] conjI)
qed

section \<open>Properties of \<^verbatim>\<open>compute_trace_colors\<close>\<close>

lemma alpha_of_apply_alpha: "alpha_of (apply_alpha c a) = Some a"
  by (cases "channels c") (simp add: apply_alpha_def)

lemma channels_apply_alpha: "channels (apply_alpha c a) = channels c"
  by (cases "channels c") (simp add: apply_alpha_def)

lemma compute_trace_colors_fillgradient:
  assumes "canonical_colorscale cs"
  shows "compute_trace_colors cs ''fillgradient'' (Some a) ctx =
     Inr (map (\<lambda>row. map (\<lambda>_. FillgradientSpec
                  \<lparr> fg_colorscale = map (\<lambda>(v, c). (v, apply_alpha c a)) cs,
                    fg_start = x_min ctx, fg_stop = x_max ctx, fg_type = ''horizontal'' \<rparr>) row)
            (densities ctx))"
  unfolding compute_trace_colors_def validate_and_coerce_colorscale_def
  using assms by simp

text \<open>
  Claim C8. For colormode \<^verbatim>\<open>fillgradient\<close> with opacity 0.5, every valid colorscale and
  every context, \<^verbatim>\<open>compute_trace_colors\<close> emits, row by row, one gradient descriptor per
  trace of the context's dataset; all descriptors are the same one: its colorscale is the
  given one with every stop colour rewritten to carry alpha 0.5 (positions and RGB
  channels unchanged), its span is the context's \<open>(x_min, x_max)\<close>, and its type is
  horizontal.
\<close>

theorem fillgradient_opacity_half:
  assumes "canonical_colorscale cs"
  shows "compute_trace_colors cs ''fillgradient'' (Some (1 / 2)) ctx =
     Inr (map (\<lambda>row. map (\<lambda>_. FillgradientSpec
                  \<lparr> fg_colorscale = map (\<lambda>(v, c). (v, apply_alpha c (1 / 2))) cs,
                    fg_start = x_min ctx, fg_stop = x_max ctx, fg_type = ''horizontal'' \<rparr>) row)
            (densities ctx))
     \<and> (\<forall>(v, c) \<in> set (map (\<lambda>(v, c). (v, apply_alpha c (1 / 2))) cs). alpha_of c = Some (1 / 2))
     \<and> map (\<lambda>(v, c). (v, channels c)) (map (\<lambda>(v, c). (v, apply_alpha c (1 / 2))) cs)
         = map (\<lambda>(v, c). (v, channels c)) cs"
proof (intro conjI)
  show "compute_trace_colors cs ''fillgradient'' (Some (1 / 2)) ctx =
     Inr (map (\<lambda>row. map (\<lambda>_. FillgradientSpec
                  \<lparr> fg_colorscale = map (\<lambda>(v, c). (v, apply_alpha c (1 / 2))) cs,
                    fg_start = x_min ctx, fg_stop = x_max ctx, fg_type = ''horizontal'' \<rparr>) row)
            (densities ctx))"
    by (rule compute_trace_colors_fillgradient [OF assms])
  show "\<forall>(v, c) \<in> set (map (\<lambda>(v, c). (v, apply_alpha c (1 / 2))) cs). alpha_of c = Some (1 / 2)"
    by (auto simp: alpha_of_apply_alpha)
  show "map (\<lambda>(v, c). (v, channels c)) (map (\<lambda>(v, c). (v, apply_alpha c (1 / 2))) cs)
         = map (\<lambda>(v, c). (v, channels c)) cs"
    by (simp add: case_prod_beta channels_apply_alpha)
qed

text \<open>
  The theorem at the black-to-white scale and a dataset of two rows, of one and of two
  traces.
\<close>

theorem fillgradient_opacity_half_witness:
  "compute_trace_colors [(0, RGB 0 0 0), (1, RGB 255 255 255)] ''fillgradient'' (Some (1 / 2))
     \<lparr> densities = [[[[0, 1]]], [[[0, 1]], [[2, 1]]]], n_rows = 2, n_traces = 3,
       x_min = 0, x_max = 2 \<rparr>
   = Inr [[FillgradientSpec
             \<lparr> fg_colorscale = [(0, RGBA 0 0 0 (1 / 2)), (1, RGBA 255 255 255 (1 / 2))],
               fg_start = 0, fg_stop = 2, fg_type = ''horizontal'' \<rparr>],
          [FillgradientSpec
             \<lparr> fg_colorscale = [(0, RGBA 0 0 0 (1 / 2)), (1, RGBA 255 255 255 (1 / 2))],
               fg_start = 0, fg_stop = 2, fg_type = ''horizontal'' \<rparr>,
           FillgradientSpec
             \<lparr> fg_colorscale = [(0, RGBA 0 0 0 (1 / 2)), (1, RGBA 255 255 255 (1 / 2))],
               fg_start = 0, fg_stop = 2, fg_type = ''horizontal'' \<rparr>]]"
  using fillgradient_opacity_half [OF canonical_black_white, THEN conjunct1,
      of "\<lparr> densities = [[[[0, 1]]], [[[0, 1]], [[2, 1]]]], n_rows = 2, n_traces = 3,
           x_min = 0, x_max = 2 \<rparr>"]
  by (simp add: apply_alpha_def)

section \<open>The colormode dispatch\<close>

lemma lib_err_Inr [simp]: "lib_err (Inr v)"
  by (simp add: lib_err_def)

lemma lib_err_bind:
  "lib_err r \<Longrightarrow> (\<And>v. lib_err (g v)) \<Longrightarrow> lib_err (case r of Inl e \<Rightarrow> Inl e | Inr v \<Rightarrow> g v)"
  by (cases r) (simp_all add: lib_err_def)

lemma lib_err_map_err:
  "(\<And>x. x \<in> set xs \<Longrightarrow> lib_err (f x)) \<Longrightarrow> lib_err (map_err f xs)"
proof (induction xs)
  case Nil
  then show ?case by simp
next
  case (Cons x xs)
  have a: "lib_err (f x)" by (rule Cons.prems) simp
  have b: "lib_err (map_err f xs)" by (rule Cons.IH, rule Cons.prems) simp
  show ?case
    unfolding map_err.simps
    by (rule lib_err_bind [OF a], rule lib_err_bind [OF b]) simp
qed

lemma lib_err_div_py: "lib_err (div_py a b)"
  by (simp add: div_py_def lib_err_def library_errors_def)

lemma lib_err_min_py: "lib_err (min_py xs)"
  by (cases xs) (simp_all add: lib_err_def library_errors_def)

lemma lib_err_max_py: "lib_err (max_py xs)"
  by (cases xs) (simp_all add: lib_err_def library_errors_def)

lemma lib_err_index_py: "lib_err (index_py xs v)"
proof (induction xs)
  case Nil
  then show ?case by (simp add: lib_err_def library_errors_def)
next
  case (Cons x xs)
  show ?case
    unfolding index_py.simps
    by (cases "x = v") (simp_all add: lib_err_bind [OF Cons.IH])
qed

lemma lib_err_unpack2: "lib_err (unpack2 xs)"
  by (cases xs rule: unpack2.cases) (simp_all add: lib_err_def library_errors_def)

lemma lib_err_normalise: "lib_err (normalise_min_max v lo hi)"
  by (simp add: normalise_min_max_def lib_err_def library_errors_def)

lemma lib_err_weighted_mean: "lib_err (weighted_mean t)"
  unfolding weighted_mean_def
  by (rule lib_err_bind [OF lib_err_unpack2]) (simp add: split_beta lib_err_div_py)

lemma lib_err_row_index: "lib_err (interpolate_row_index ctx)"
  unfolding interpolate_row_index_def
  by (rule lib_err_map_err) (simp add: split_beta lib_err_bind [OF lib_err_div_py])

lemma lib_err_trace_index_row:
  "lib_err (case trace_index_row n row acc k of Inl e \<Rightarrow> Inl e | Inr v \<Rightarrow> (Inr () :: error + unit))"
proof (induction row arbitrary: acc k)
  case Nil
  then show ?case by simp
next
  case (Cons t row)
  show ?case
  proof (cases "div_py (of_int ((n - 1) - k)) (of_int (n - 1))")
    case (Inl e)
    with lib_err_div_py [of "of_int ((n - 1) - k)" "of_int (n - 1)"]
    show ?thesis by (simp add: lib_err_def)
  next
    case (Inr p)
    then show ?thesis using Cons.IH by simp
  qed
qed

lemma trace_index_row_err:
  "trace_index_row n row acc k = Inl e \<Longrightarrow> e \<in> set library_errors"
  using lib_err_trace_index_row [of n row acc k] by (simp add: lib_err_def)

lemma lib_err_trace_index_rows: "lib_err (trace_index_rows n rows ps k)"
proof (induction rows arbitrary: ps k)
  case Nil
  then show ?case by simp
next
  case (Cons row rows)
  show ?case
  proof (cases "trace_index_row n row [] k")
    case (Inl e)
    then show ?thesis using trace_index_row_err [OF Inl] by (simp add: lib_err_def)
  next
    case (Inr v)
    then show ?thesis using Cons.IH by (cases v) simp
  qed
qed

lemma lib_err_trace_index: "lib_err (interpolate_trace_index ctx)"
  unfolding interpolate_trace_index_def by (rule lib_err_trace_index_rows)

lemma lib_err_row_wise: "lib_err (interpolate_trace_index_row_wise ctx)"
  unfolding interpolate_trace_index_row_wise_def
  by (rule lib_err_map_err, rule lib_err_map_err, rule lib_err_div_py)

lemma lib_err_mean_minmax: "lib_err (interpolate_mean_minmax ctx)"
  unfolding interpolate_mean_minmax_def
  by (rule lib_err_map_err, rule lib_err_map_err,
      rule lib_err_bind [OF lib_err_weighted_mean], rule lib_err_normalise)

lemma lib_err_mean_means: "lib_err (interpolate_mean_means ctx)"
  unfolding interpolate_mean_means_def
  apply (rule lib_err_bind)
   apply (rule lib_err_map_err, rule lib_err_map_err, rule lib_err_weighted_mean)
  apply (rule lib_err_bind)
   apply (rule lib_err_map_err, rule lib_err_min_py)
  apply (rule lib_err_bind [OF lib_err_min_py])
  apply (rule lib_err_bind)
   apply (rule lib_err_map_err, rule lib_err_max_py)
  apply (rule lib_err_bind [OF lib_err_max_py])
  apply (rule lib_err_map_err, rule lib_err_map_err, rule lib_err_normalise)
  done

lemma lib_err_interpolate_color: "lib_err (interpolate_color cs p)"
proof (cases "0 \<le> p \<and> p \<le> 1")
  case False
  then show ?thesis
    by (simp add: interpolate_color_def lib_err_def library_errors_def)
next
  case True
  then have c1: "(\<not> (0 \<le> p \<and> p \<le> 1)) = False" by simp
  show ?thesis
  proof (cases "p \<in> set (map fst cs)")
    case mem: True
    then have c2: "(p \<in> set (map fst cs)) = True" by simp
    show ?thesis
      unfolding interpolate_color_def Let_def c1 c2 if_False if_True
      by (rule lib_err_bind [OF lib_err_index_py]) (rule lib_err_Inr)
  next
    case False
    then have c2: "(p \<in> set (map fst cs)) = False" by simp
    show ?thesis
      unfolding interpolate_color_def Let_def c1 c2 if_False
      apply (rule lib_err_bind [OF lib_err_min_py])
      apply (rule lib_err_bind [OF lib_err_max_py])
      apply (rule lib_err_bind [OF lib_err_normalise])
      apply (rule lib_err_bind [OF lib_err_index_py])
      apply (rule lib_err_bind [OF lib_err_index_py])
      apply (rule lib_err_Inr)
      done
  qed
qed

lemma lib_err_get_fill_color: "lib_err (get_fill_color cs opacity p)"
  unfolding get_fill_color_def
  by (rule lib_err_bind [OF lib_err_interpolate_color]) (rule lib_err_Inr)

lemma lib_err_strategy:
  "map_of SOLID_COLORMODE_MAPS colormode = Some f \<Longrightarrow> lib_err (f ctx)"
  by (auto simp: SOLID_COLORMODE_MAPS_def lib_err_row_index lib_err_trace_index lib_err_row_wise
      lib_err_mean_minmax lib_err_mean_means split: if_splits)

lemma lib_err_compute_trace_colors:
  assumes "colormode \<in> set valid_colormodes"
  shows "lib_err (compute_trace_colors cs colormode opacity ctx)"
proof (cases "colormode = ''fillgradient''")
  case True
  show ?thesis
    unfolding compute_trace_colors_def Let_def
    by (rule lib_err_bind)
       (simp_all add: True validate_and_coerce_colorscale_def lib_err_def library_errors_def)
next
  case False
  with assms have "colormode \<in> set (map fst SOLID_COLORMODE_MAPS)"
    by (simp add: valid_colormodes_def)
  then obtain f where f: "map_of SOLID_COLORMODE_MAPS colormode = Some f"
    by (metis map_of_eq_None_iff not_Some_eq set_map)
  have v: "lib_err (validate_and_coerce_colorscale cs)"
    by (simp add: validate_and_coerce_colorscale_def lib_err_def library_errors_def)
  show ?thesis
    unfolding compute_trace_colors_def Let_def
    apply (rule lib_err_bind [OF v])
    apply (simp only: False if_False f option.case)
    apply (rule lib_err_bind [OF lib_err_strategy [OF f]])
    apply (rule lib_err_map_err, rule lib_err_map_err)
    apply (rule lib_err_bind [OF lib_err_get_fill_color])
    apply (rule lib_err_Inr)
    done
qed

lemma colormode_error_not_library: "colormode_error m \<notin> set library_errors"
  by (simp add: colormode_error_def library_errors_def)

lemma valid_colormodes_eq:
  "valid_colormodes =
     [''fillgradient'', ''row-index'', ''trace-index'', ''trace-index-row-wise'',
      ''mean-minmax'', ''mean-means'']"
  by (simp add: valid_colormodes_def SOLID_COLORMODE_MAPS_def)

lemma colormode_error_eq:
  "colormode_error m = ValueError (colormode_error_head @ '', got '' @ m @ '' instead.'')"
  by (simp add: colormode_error_def colormode_error_head_def tuple_repr_def str_repr_def
      SOLID_COLORMODE_MAPS_def)

lemma names_in_head:
  "\<forall>name \<in> set valid_colormodes. sublist (str_repr name) colormode_error_head"
  unfolding valid_colormodes_eq colormode_error_head_def str_repr_def
  by code_simp

lemma unknown_colormode:
  assumes "canonical_colorscale cs" and "colormode \<notin> set valid_colormodes"
  shows "compute_trace_colors cs colormode opacity ctx = Inl (colormode_error colormode)"
proof -
  from assms(2) have nf: "colormode \<noteq> ''fillgradient''"
    and "colormode \<notin> set (map fst SOLID_COLORMODE_MAPS)"
    by (simp_all add: valid_colormodes_def)
  then have n: "map_of SOLID_COLORMODE_MAPS colormode = None"
    by (simp add: map_of_eq_None_iff)
  show ?thesis
    unfolding compute_trace_colors_def Let_def validate_and_coerce_colorscale_def
    using assms(1) nf n by simp
qed

text \<open>
  Claim C9. With a valid colorscale, \<^verbatim>\<open>compute_trace_colors\<close> fails for every colormode
  name that is neither \<^verbatim>\<open>fillgradient\<close> nor one of the five solid colormode names, with
  the ValueError whose message names, each in quotes, \<^verbatim>\<open>fillgradient\<close> and the five solid
  names; and for every recognized name it does not raise that error (for any name in the
  message), whatever else it returns or raises.
\<close>

theorem unrecognized_colormode_raises:
  assumes "canonical_colorscale cs"
  shows "(colormode \<notin> set valid_colormodes \<longrightarrow>
            compute_trace_colors cs colormode opacity ctx = Inl (colormode_error colormode))
       \<and> (colormode \<in> set valid_colormodes \<longrightarrow>
            (\<forall>m. compute_trace_colors cs colormode opacity ctx \<noteq> Inl (colormode_error m)))
       \<and> (\<exists>msg. colormode_error colormode = ValueError msg
             \<and> (\<forall>name \<in> set valid_colormodes. sublist (str_repr name) msg))"
proof (intro conjI impI allI)
  assume "colormode \<notin> set valid_colormodes"
  with assms show "compute_trace_colors cs colormode opacity ctx = Inl (colormode_error colormode)"
    by (rule unknown_colormode)
next
  fix m
  assume "colormode \<in> set valid_colormodes"
  then have l: "lib_err (compute_trace_colors cs colormode opacity ctx)"
    by (rule lib_err_compute_trace_colors)
  show "compute_trace_colors cs colormode opacity ctx \<noteq> Inl (colormode_error m)"
  proof
    assume "compute_trace_colors cs colormode opacity ctx = Inl (colormode_error m)"
    with l have "colormode_error m \<in> set library_errors" by (simp add: lib_err_def)
    with colormode_error_not_library [of m] show False by (rule notE)
  qed
next
  let ?msg = "colormode_error_head @ '', got '' @ colormode @ '' instead.''"
  have "\<forall>name \<in> set valid_colormodes. sublist (str_repr name) ?msg"
  proof
    fix name assume "name \<in> set valid_colormodes"
    with names_in_head have "sublist (str_repr name) colormode_error_head" by (rule bspec)
    moreover have "sublist colormode_error_head ?msg" by (rule sublist_append_rightI)
    ultimately show "sublist (str_repr name) ?msg" by (rule sublist_order.order.trans)
  qed
  with colormode_error_eq [of colormode]
  show "\<exists>msg. colormode_error colormode = ValueError msg
             \<and> (\<forall>name \<in> set valid_colormodes. sublist (str_repr name) msg)"
    by (intro exI [of _ ?msg] conjI)
qed

text \<open>
  The theorem at the black-to-white scale: the unknown name \<open>foo\<close> is refused, and the
  recognized name \<open>row-index\<close> on a one-row dataset raises ZeroDivisionError, not the
  colormode error.
\<close>

theorem unrecognized_colormode_raises_witness:
  "compute_trace_colors [(0, RGB 0 0 0), (1, RGB 255 255 255)] ''foo'' None
     \<lparr> densities = [[[[0, 1]]]], n_rows = 1, n_traces = 1, x_min = 0, x_max = 1 \<rparr>
     = Inl (colormode_error ''foo'')
   \<and> compute_trace_colors [(0, RGB 0 0 0), (1, RGB 255 255 255)] ''row-index'' None
     \<lparr> densities = [[[[0, 1]]]], n_rows = 1, n_traces = 1, x_min = 0, x_max = 1 \<rparr>
     \<noteq> Inl (colormode_error ''row-index'')
   \<and> sublist ''mean-means'' (case colormode_error ''foo'' of ValueError msg \<Rightarrow> msg | _ \<Rightarrow> [])"
proof -
  note t = unrecognized_colormode_raises [OF canonical_black_white]
  have a: "''foo'' \<notin> set valid_colormodes" by (simp add: valid_colormodes_eq)
  have b: "''row-index'' \<in> set valid_colormodes" by (simp add: valid_colormodes_eq)
  have c: "''mean-means'' \<in> set valid_colormodes" by (simp add: valid_colormodes_eq)
  note t1 = t [of "''foo''", THEN conjunct1, THEN mp, OF a]
  note t2 = t [of "''row-index''", THEN conjunct2, THEN conjunct1, THEN mp, OF b, THEN spec]
  from t [of "''foo''", THEN conjunct2, THEN conjunct2]
  obtain msg where msg: "colormode_error ''foo'' = ValueError msg"
      "\<forall>name \<in> set valid_colormodes. sublist (str_repr name) msg"
    by (elim exE conjE)
  from msg(2) c have "sublist (str_repr ''mean-means'') msg" by (rule bspec)
  moreover have "sublist ''mean-means'' (str_repr ''mean-means'')"
    unfolding str_repr_def by (rule sublist_appendI)
  ultimately have "sublist ''mean-means'' msg" by (rule sublist_order.order.trans [rotated])
  then have t3: "sublist ''mean-means'' (case colormode_error ''foo'' of ValueError msg \<Rightarrow> msg | _ \<Rightarrow> [])"
    by (simp add: msg(1))
  from t1 t2 t3 show ?thesis by (intro conjI)
qed

section \<open>The blend stays inside the bracket\<close>

lemma blend_between:
  fixes l h t :: rat
  assumes "0 \<le> t" "t \<le> 1"
  shows "min l h \<le> l + t * (h - l) \<and> l + t * (h - l) \<le> max l h"
proof (cases "l \<le> h")
  case True
  then have d: "0 \<le> h - l" by simp
  have a: "0 \<le> t * (h - l)" using assms(1) d by (rule mult_nonneg_nonneg)
  have "t * (h - l) \<le> 1 * (h - l)" using assms(2) d by (rule mult_right_mono)
  then have b: "t * (h - l) \<le> h - l" by simp
  from True have m: "min l h = l" "max l h = h" by simp_all
  show ?thesis unfolding m using a b by linarith
next
  case False
  then have d: "h - l \<le> 0" by simp
  have a: "t * (h - l) \<le> 0" using assms(1) d by (rule mult_nonneg_nonpos)
  have "1 * (h - l) \<le> t * (h - l)" using assms(2) d by (rule mult_right_mono_neg)
  then have b: "h - l \<le> t * (h - l)" by simp
  from False have m: "min l h = h" "max l h = l" by simp_all
  show ?thesis unfolding m using a b by linarith
qed

lemma find_intermediate_color_between:
  assumes "0 \<le> t" "t \<le> 1"
  shows "channels_between lo hi (find_intermediate_color lo hi t)"
proof -
  obtain l0 l1 l2 where l: "channels lo = (l0, l1, l2)" by (cases "channels lo") auto
  obtain h0 h1 h2 where h: "channels hi = (h0, h1, h2)" by (cases "channels hi") auto
  show ?thesis
    unfolding channels_between_def find_intermediate_color_def l h
    using blend_between [OF assms, of l0 h0] blend_between [OF assms, of l1 h1]
      blend_between [OF assms, of l2 h2]
    by simp
qed

lemma round_half_even_bounds: "\<lfloor>q\<rfloor> \<le> round_half_even q \<and> round_half_even q \<le> \<lfloor>q\<rfloor> + 1"
  by (simp add: round_half_even_def Let_def)

lemma round_half_even_mono:
  assumes "x \<le> y"
  shows "round_half_even x \<le> round_half_even y"
proof (cases "\<lfloor>x\<rfloor> = \<lfloor>y\<rfloor>")
  case True
  have "x - of_int \<lfloor>x\<rfloor> \<le> y - of_int \<lfloor>y\<rfloor>" using assms True by simp
  then show ?thesis
    unfolding round_half_even_def Let_def True by auto
next
  case False
  have "\<lfloor>x\<rfloor> \<le> \<lfloor>y\<rfloor>" using assms by (rule floor_mono)
  with False have "\<lfloor>x\<rfloor> + 1 \<le> \<lfloor>y\<rfloor>" by simp
  with round_half_even_bounds [of x] round_half_even_bounds [of y]
  show ?thesis by linarith
qed

lemma round_py_mono:
  assumes "x \<le> y"
  shows "round_py x n \<le> round_py y n"
proof -
  have p: "(0 :: rat) < 10 ^ n" by simp
  have "x * 10 ^ n \<le> y * 10 ^ n" using assms p by (simp add: mult_right_mono)
  then have "round_half_even (x * 10 ^ n) \<le> round_half_even (y * 10 ^ n)"
    by (rule round_half_even_mono)
  then have "(of_int (round_half_even (x * 10 ^ n)) :: rat) \<le> of_int (round_half_even (y * 10 ^ n))"
    by simp
  then show ?thesis
    unfolding round_py_def using p by (simp add: divide_right_mono)
qed

lemma round_py_between:
  assumes "round_py l n = l" "round_py h n = h" and "min l h \<le> v" "v \<le> max l h"
  shows "min l h \<le> round_py v n \<and> round_py v n \<le> max l h"
proof -
  have m: "round_py (min l h) n = min l h" "round_py (max l h) n = max l h"
    using assms(1,2) by (simp_all add: min_def max_def)
  from round_py_mono [OF assms(3), of n] round_py_mono [OF assms(4), of n]
  show ?thesis unfolding m by simp
qed

lemma round_color_between:
  assumes "round_stable lo" "round_stable hi" "channels_between lo hi c"
  shows "channels_between lo hi (round_color c 12)"
proof -
  obtain l0 l1 l2 where l: "channels lo = (l0, l1, l2)" by (cases "channels lo") auto
  obtain h0 h1 h2 where h: "channels hi = (h0, h1, h2)" by (cases "channels hi") auto
  obtain c0 c1 c2 where c: "channels c = (c0, c1, c2)" by (cases "channels c") auto
  have r: "channels (round_color c 12) = (round_py c0 12, round_py c1 12, round_py c2 12)"
    using c by (cases c) simp_all
  from assms(1) l have sl: "round_py l0 12 = l0" "round_py l1 12 = l1" "round_py l2 12 = l2"
    by (simp_all add: round_stable_def)
  from assms(2) h have sh: "round_py h0 12 = h0" "round_py h1 12 = h1" "round_py h2 12 = h2"
    by (simp_all add: round_stable_def)
  from assms(3) have b: "min l0 h0 \<le> c0" "c0 \<le> max l0 h0" "min l1 h1 \<le> c1" "c1 \<le> max l1 h1"
      "min l2 h2 \<le> c2" "c2 \<le> max l2 h2"
    by (simp_all add: channels_between_def l h c)
  show ?thesis
    unfolding channels_between_def l h r
    using round_py_between [OF sl(1) sh(1) b(1,2)] round_py_between [OF sl(2) sh(2) b(3,4)]
      round_py_between [OF sl(3) sh(3) b(5,6)]
    by simp
qed

lemma sorted_between_hd_last:
  fixes xs :: "'a::linorder list"
  assumes "sorted xs" and "x \<in> set xs"
  shows "hd xs \<le> x \<and> x \<le> last xs"
proof -
  from assms(2) obtain k where k: "k < length xs" "xs ! k = x"
    by (auto simp: in_set_conv_nth)
  then have ne: "xs \<noteq> []" by auto
  have "xs ! 0 \<le> xs ! k"
    using assms(1) k(1) by (simp add: sorted_iff_nth_mono)
  moreover have "xs ! k \<le> xs ! (length xs - 1)"
    using assms(1) k(1) by (simp add: sorted_iff_nth_mono)
  ultimately show ?thesis
    using ne k(2) by (simp add: hd_conv_nth last_conv_nth)
qed

lemma canonical_positions:
  assumes "canonical_colorscale cs" and "s \<in> set (map fst cs)"
  shows "0 \<le> s \<and> s \<le> 1"
proof -
  from assms(1) have ne: "cs \<noteq> []" and so: "sorted_wrt (<) (map fst cs)"
    and h: "fst (hd cs) = 0" and l: "fst (last cs) = 1"
    by (simp_all add: canonical_colorscale_def)
  have "sorted (map fst cs)" using so by (rule strict_sorted_imp_sorted)
  from sorted_between_hd_last [OF this assms(2)]
  show ?thesis using ne h l by (simp add: hd_map last_map)
qed

lemma canonical_distinct: "canonical_colorscale cs \<Longrightarrow> distinct (map fst cs)"
  by (simp add: canonical_colorscale_def strict_sorted_iff)

lemma interpolate_color_bracket:
  assumes can: "canonical_colorscale cs"
    and lo: "(f, cf) \<in> set cs" and hi: "(g, cg) \<in> set cs"
    and fp: "f < p" and pg: "p < g"
    and gap: "\<forall>s \<in> set (map fst cs). s \<le> f \<or> g \<le> s"
  shows "interpolate_color cs p = Inr (find_intermediate_color cf cg ((p - f) / (g - f)))"
proof -
  have fm: "f \<in> set (map fst cs)" using lo by (simp add: image_iff) (rule bexI [of _ "(f, cf)"], simp_all)
  have gm: "g \<in> set (map fst cs)" using hi by (simp add: image_iff) (rule bexI [of _ "(g, cg)"], simp_all)
  have "0 \<le> f" using canonical_positions [OF can fm] by simp
  with fp have p0: "0 \<le> p" by simp
  have "g \<le> 1" using canonical_positions [OF can gm] by simp
  with pg have p1: "p \<le> 1" by simp
  have nm: "p \<notin> set (map fst cs)"
  proof
    assume "p \<in> set (map fst cs)"
    with gap have "p \<le> f \<or> g \<le> p" by (rule bspec)
    with fp pg show False by auto
  qed
  from min_py_filter [of g "map fst cs" "\<lambda>s. s > p", OF gm pg]
  obtain m where m: "min_py (filter (\<lambda>s. s > p) (map fst cs)) = Inr m"
      "m \<in> set (map fst cs)" "p < m" "\<forall>s \<in> set (map fst cs). p < s \<longrightarrow> m \<le> s"
    by (elim exE conjE)
  have "m \<le> g" using m(4) gm pg by (elim ballE [of _ _ g]) simp_all
  moreover have "m \<le> f \<or> g \<le> m" using gap m(2) by (rule bspec)
  ultimately have mg: "m = g" using m(3) fp by auto
  from max_py_filter [of f "map fst cs" "\<lambda>s. s < p", OF fm fp]
  obtain k where k: "max_py (filter (\<lambda>s. s < p) (map fst cs)) = Inr k"
      "k \<in> set (map fst cs)" "k < p" "\<forall>s \<in> set (map fst cs). s < p \<longrightarrow> s \<le> k"
    by (elim exE conjE)
  have "f \<le> k" using k(4) fm fp by (elim ballE [of _ _ f]) simp_all
  moreover have "k \<le> f \<or> g \<le> k" using gap k(2) by (rule bspec)
  ultimately have kf: "k = f" using k(3) pg by auto
  from index_py_stop [OF lo canonical_distinct [OF can]]
  obtain i where i: "index_py (map fst cs) f = Inr i" "map snd cs ! i = cf"
    by (elim exE conjE)
  from index_py_stop [OF hi canonical_distinct [OF can]]
  obtain j where j: "index_py (map fst cs) g = Inr j" "map snd cs ! j = cg"
    by (elim exE conjE)
  from interpolate_color_blend_branch [OF p0 p1 nm m(1) [unfolded mg] k(1) [unfolded kf] fp pg i(1) j(1)]
  show ?thesis unfolding i(2) j(2) .
qed

lemma round_py_of_int: "round_py (of_int k) n = of_int k"
proof -
  have "(of_int k :: rat) * 10 ^ n = of_int (k * 10 ^ n)" by simp
  then have "round_half_even (of_int k * 10 ^ n) = k * 10 ^ n"
    unfolding round_half_even_def Let_def by (simp only: floor_of_int) simp
  then show ?thesis by (simp add: round_py_def)
qed

lemma round_stable_integer_channels:
  "round_stable (RGB (of_int r) (of_int g) (of_int b))"
  "round_stable (RGBA (of_int r) (of_int g) (of_int b) a)"
  by (simp_all add: round_stable_def round_py_of_int)

text \<open>
  Claim C5, as stated, fails: rounding to 12 decimal digits can leave the bracket when
  the bracketing stops' own channel values are finer than that. Between the red channels
  \<open>1e-13\<close> and \<open>2e-13\<close> the blend at \<open>p = 1/2\<close> is \<open>1.5e-13\<close>, which rounds to 0.
\<close>

theorem rounding_leaves_bracket_counterexample:
  "canonical_colorscale
     [(0, RGB (1 / 10000000000000) 0 0), (1, RGB (2 / 10000000000000) 0 0)]
   \<and> get_fill_color [(0, RGB (1 / 10000000000000) 0 0), (1, RGB (2 / 10000000000000) 0 0)]
         None (1 / 2) = Inr (RGB 0 0 0)
   \<and> \<not> channels_between (RGB (1 / 10000000000000) 0 0) (RGB (2 / 10000000000000) 0 0)
         (RGB 0 0 0)"
proof (intro conjI)
  show "canonical_colorscale
     [(0, RGB (1 / 10000000000000) 0 0), (1, RGB (2 / 10000000000000) 0 0)]"
    by (simp add: canonical_colorscale_def)
  have i: "interpolate_color
      [(0, RGB (1 / 10000000000000) 0 0), (1, RGB (2 / 10000000000000) 0 0)] (1 / 2)
        = Inr (RGB (3 / 20000000000000) 0 0)"
    by (simp add: interpolate_color_def normalise_min_max_def find_intermediate_color_def
        to_rgb_def)
  have "(3 / 20000000000000 :: rat) * 10 ^ 12 = 3 / 20" by simp
  moreover have "\<lfloor>3 / 20 :: rat\<rfloor> = 0" by (rule floor_unique) simp_all
  ultimately have "round_half_even ((3 / 20000000000000) * 10 ^ 12) = 0"
    by (simp add: round_half_even_def Let_def)
  then have r: "round_py (3 / 20000000000000) 12 = 0" by (simp add: round_py_def)
  have z: "round_py 0 12 = 0" using round_py_of_int [of 0 12] by simp
  show "get_fill_color [(0, RGB (1 / 10000000000000) 0 0), (1, RGB (2 / 10000000000000) 0 0)]
         None (1 / 2) = Inr (RGB 0 0 0)"
    unfolding get_fill_color_def i by (simp add: r z)
  show "\<not> channels_between (RGB (1 / 10000000000000) 0 0) (RGB (2 / 10000000000000) 0 0)
         (RGB 0 0 0)"
    by (simp add: channels_between_def)
qed

text \<open>
  Claim C5 as amended. For every valid colorscale and every \<open>p\<close> strictly between two
  neighbouring stops (the largest stop below \<open>p\<close> and the smallest stop above it, so
  \<open>p\<close> is in \<open>[0, 1]\<close> and is no stop position), each RGB channel of the colour returned by
  \<^verbatim>\<open>interpolate_color\<close> lies between the corresponding channels of the two bracketing
  stops; and after the rounding to 12 decimal digits that the fill colour gets it still
  does, provided the bracketing stops' channel values are themselves unchanged by that
  rounding (integer channels, for instance).
\<close>

theorem blend_within_bracket:
  assumes "canonical_colorscale cs"
    and "(f, cf) \<in> set cs" and "(g, cg) \<in> set cs"
    and "f < p" and "p < g"
    and "\<forall>s \<in> set (map fst cs). s \<le> f \<or> g \<le> s"
  shows "\<exists>c. interpolate_color cs p = Inr c
           \<and> channels_between cf cg c
           \<and> get_fill_color cs None p = Inr (round_color c 12)
           \<and> (round_stable cf \<and> round_stable cg \<longrightarrow> channels_between cf cg (round_color c 12))"
proof -
  let ?t = "(p - f) / (g - f)"
  let ?c = "find_intermediate_color cf cg ?t"
  have r: "interpolate_color cs p = Inr ?c"
    by (rule interpolate_color_bracket [OF assms])
  have d: "0 < g - f" using assms(4,5) by simp
  have t0: "0 \<le> ?t" using assms(4) d by simp
  have t1: "?t \<le> 1" using assms(5) d by simp
  have b: "channels_between cf cg ?c"
    by (rule find_intermediate_color_between [OF t0 t1])
  have gf: "get_fill_color cs None p = Inr (round_color ?c 12)"
    by (simp add: get_fill_color_def r)
  have rb: "round_stable cf \<and> round_stable cg \<longrightarrow> channels_between cf cg (round_color ?c 12)"
    using b by (auto intro: round_color_between)
  from r b gf rb show ?thesis by (intro exI [of _ ?c] conjI)
qed

text \<open>
  The theorem at a three-stop scale with integer channels and \<open>p = 1/2\<close>, between the
  stops at 1/4 and 1: the red channel of the blend is 275/3.
\<close>

theorem blend_within_bracket_witness:
  "\<exists>c. interpolate_color [(0, RGB 0 0 0), (1 / 4, RGB 10 20 30), (1, RGB 255 255 255)] (1 / 2)
          = Inr c
      \<and> channels_between (RGB 10 20 30) (RGB 255 255 255) c
      \<and> channels_between (RGB 10 20 30) (RGB 255 255 255) (round_color c 12)"
proof -
  define cs where "cs = [(0 :: rat, RGB 0 0 0), (1 / 4, RGB 10 20 30), (1, RGB 255 255 255)]"
  have can: "canonical_colorscale cs" by (simp add: cs_def canonical_colorscale_def)
  have lo: "(1 / 4, RGB 10 20 30) \<in> set cs" and hi: "(1, RGB 255 255 255) \<in> set cs"
    by (simp_all add: cs_def)
  have fp: "(1 / 4 :: rat) < 1 / 2" and pg: "(1 / 2 :: rat) < 1" by simp_all
  have gap: "\<forall>s \<in> set (map fst cs). s \<le> 1 / 4 \<or> 1 \<le> s" by (simp add: cs_def)
  have s1: "round_stable (RGB 10 20 30)"
    using round_stable_integer_channels(1) [of 10 20 30] by simp
  have s2: "round_stable (RGB 255 255 255)"
    using round_stable_integer_channels(1) [of 255 255 255] by simp
  from blend_within_bracket [OF can lo hi fp pg gap]
  obtain c where c: "interpolate_color cs (1 / 2) = Inr c"
      "channels_between (RGB 10 20 30) (RGB 255 255 255) c"
      "round_stable (RGB 10 20 30) \<and> round_stable (RGB 255 255 255) \<longrightarrow>
         channels_between (RGB 10 20 30) (RGB 255 255 255) (round_color c 12)"
    by (elim exE conjE)
  from c(3) s1 s2 have "channels_between (RGB 10 20 30) (RGB 255 255 255) (round_color c 12)"
    by (elim impE) (rule conjI)
  with c(1,2) show ?thesis unfolding cs_def by (intro exI [of _ c] conjI)
qed

end
